theory Spec2Isabelle
  imports Main "HOL-Library.Sublist"
begin

section \<open>JavaScript string primitives used by the sources\<close>

text \<open>
  Strings are lists of characters. The sources only use \<^verbatim>\<open>startsWith\<close>,
  \<^verbatim>\<open>endsWith\<close>, \<^verbatim>\<open>includes\<close>, \<^verbatim>\<open>replaceAll\<close>, \<^verbatim>\<open>trim\<close>,
  \<^verbatim>\<open>split\<close> and \<^verbatim>\<open>join\<close>; all of them compare characters for equality
  (case-sensitively).
\<close>

definition dquote :: char where
  "dquote = CHR 0x22"

definition squote :: char where
  "squote = CHR 0x27"

text \<open>\<^verbatim>\<open>s.startsWith(p)\<close>\<close>

fun startsWith :: "string \<Rightarrow> string \<Rightarrow> bool" where
  "startsWith s [] = True"
| "startsWith [] (p # ps) = False"
| "startsWith (c # cs) (p # ps) = (c = p \<and> startsWith cs ps)"

text \<open>\<^verbatim>\<open>s.endsWith(p)\<close>\<close>

definition endsWith :: "string \<Rightarrow> string \<Rightarrow> bool" where
  "endsWith s p = startsWith (rev s) (rev p)"

text \<open>\<^verbatim>\<open>s.includes(sub)\<close>: \<open>sub\<close> occurs in \<open>s\<close> as a contiguous run.\<close>

fun str_includes :: "string \<Rightarrow> string \<Rightarrow> bool" where
  "str_includes [] sub = (sub = [])"
| "str_includes (c # cs) sub = (startsWith (c # cs) sub \<or> str_includes cs sub)"

text \<open>
  Truthiness of a \<^verbatim>\<open>string | undefined\<close>: \<^verbatim>\<open>undefined\<close> and the empty
  string are falsy. \<open>truthyValue\<close> keeps the string of a truthy value.
\<close>

definition truthyValue :: "string option \<Rightarrow> string option" where
  "truthyValue v = (case v of None \<Rightarrow> None | Some s \<Rightarrow> if s = [] then None else Some s)"

definition truthy :: "string option \<Rightarrow> bool" where
  "truthy v = (truthyValue v \<noteq> None)"

text \<open>
  \<^verbatim>\<open>s.trim()\<close> removes white space and line terminators from both ends. The
  characters of a string are bytes here, so the white space is the ASCII part of
  what JavaScript strips (space, tab, line feed, vertical tab, form feed, carriage
  return).
\<close>

definition isWhiteSpace :: "char \<Rightarrow> bool" where
  "isWhiteSpace c = (c \<in> set [CHR 0x20, CHR 0x09, CHR 0x0A, CHR 0x0B, CHR 0x0C, CHR 0x0D])"

definition trim :: "string \<Rightarrow> string" where
  "trim s = rev (dropWhile isWhiteSpace (rev (dropWhile isWhiteSpace s)))"

text \<open>\<^verbatim>\<open>xs.join(sep)\<close>\<close>

fun join :: "string \<Rightarrow> string list \<Rightarrow> string" where
  "join sep [] = []"
| "join sep [x] = x"
| "join sep (x # y # ys) = x @ sep @ join sep (y # ys)"

text \<open>The first element of \<^verbatim>\<open>s.split(' ')\<close>.\<close>

definition firstToken :: "string \<Rightarrow> string" where
  "firstToken s = takeWhile (\<lambda>c. c \<noteq> CHR 0x20) s"

section \<open>Test target resolution (the test command)\<close>

subsection \<open>Nodes of the environment\<close>

text \<open>
  The node classes of the language library that the test command distinguishes.
  \<open>Entity\<close> stands for every entity that is none of Package, Describe and Test,
  \<open>Other\<close> for every node that is no entity.
\<close>

datatype kind = Environment | Package | Describe | Test | Entity | Other

text \<open>
  The attributes of a node that the test command reads. \<open>nodeId\<close> is the identity
  of the object (the sources compare nodes by reference in \<^verbatim>\<open>targets.includes\<close>).
  Names of describes and tests include their double quotes.
\<close>

record node =
  nodeId :: nat
  kind :: kind
  name :: string
  fileName :: "string option"
  isOnly :: bool
  fullyQualifiedName :: string

text \<open>
  The options of the test command; the field \<open>file_option\<close> is the option
  \<^verbatim>\<open>file\<close>.
\<close>

record Options =
  file_option :: "string option"
  describe :: "string option"
  test :: "string option"
  project :: string
  skipValidations :: bool

datatype test_error = TestSearchMissError string

subsection \<open>The resolver\<close>

text \<open>
  \<^verbatim>\<open>validateParameters\<close> throws when a free-text filter comes together with a
  file, describe or test option; \<open>True\<close> means it returns normally.
\<close>

definition validateParameters :: "string option \<Rightarrow> Options \<Rightarrow> bool" where
  "validateParameters fltr options =
     (\<not> (truthy fltr \<and> (truthy (file_option options) \<or> truthy (describe options) \<or> truthy (test options))))"

text \<open>\<^verbatim>\<open>value?.replaceAll('"', '')\<close>\<close>

definition sanitize :: "string option \<Rightarrow> string option" where
  "sanitize v = map_option (filter (\<lambda>c. c \<noteq> dquote)) v"

definition quoted :: "string \<Rightarrow> string" where
  "quoted s = dquote # s @ [dquote]"

text \<open>
  The traversal \<^verbatim>\<open>node.descendants\<close> belongs to the language library; it is the
  parameter \<open>descendants\<close> of every definition below, so that the results hold for
  whatever order the library enumerates descendants in.
\<close>

definition getBaseNode ::
  "(node \<Rightarrow> node list) \<Rightarrow> node \<Rightarrow> string option \<Rightarrow> Options \<Rightarrow> test_error + node" where
  "getBaseNode descendants environment fltr options =
     (if truthy fltr then Inr environment
      else
        (case (case truthyValue (file_option options) of
                 None \<Rightarrow> Inr environment
               | Some f \<Rightarrow>
                   (case find (\<lambda>n. kind n = Package \<and> fileName n = Some f) (descendants environment) of
                      None \<Rightarrow> Inl (TestSearchMissError (''File '' @ [squote] @ f @ [squote] @ '' not found''))
                    | Some p \<Rightarrow> Inr p)) of
           Inl e \<Rightarrow> Inl e
         | Inr nodeToFilter \<Rightarrow>
             (case truthyValue (describe options) of
                None \<Rightarrow> Inr nodeToFilter
              | Some d \<Rightarrow>
                  (case find (\<lambda>n. kind n = Describe \<and> name n = quoted d) (descendants nodeToFilter) of
                     None \<Rightarrow> Inl (TestSearchMissError (''Describe '' @ [squote] @ d @ [squote] @ '' not found''))
                   | Some g \<Rightarrow> Inr g))))"

definition getTestFilter :: "string option \<Rightarrow> Options \<Rightarrow> node \<Rightarrow> bool" where
  "getTestFilter fltr options =
     (if truthy fltr \<or> \<not> truthy (test options)
      then (\<lambda>n. kind n = Test)
      else (\<lambda>n. kind n = Test \<and> Some (name n) = map_option quoted (test options)))"

text \<open>
  Line 115 of the source: the candidates, or the miss thrown while narrowing the
  base scope.
\<close>

definition possibleTargets ::
  "(node \<Rightarrow> node list) \<Rightarrow> node \<Rightarrow> string option \<Rightarrow> Options \<Rightarrow> test_error + node list" where
  "possibleTargets descendants environment fltr options =
     (case getBaseNode descendants environment fltr options of
        Inl e \<Rightarrow> Inl e
      | Inr base \<Rightarrow> Inr (filter (getTestFilter fltr options) (descendants base)))"

text \<open>The local function \<^verbatim>\<open>testMatches\<close> of \<^verbatim>\<open>getTarget\<close>.\<close>

definition testMatches :: "string \<Rightarrow> node \<Rightarrow> bool" where
  "testMatches fltr t =
     (fltr = [] \<or>
      (case sanitize (Some (fullyQualifiedName t)) of
         None \<Rightarrow> False
       | Some fqn \<Rightarrow> str_includes fqn fltr))"

text \<open>
  \<^verbatim>\<open>getTarget\<close> returns the messages it passed to \<^verbatim>\<open>logger.error\<close> together
  with the selected tests.
\<close>

definition getTarget ::
  "(node \<Rightarrow> node list) \<Rightarrow> node \<Rightarrow> string option \<Rightarrow> Options \<Rightarrow> string list \<times> node list" where
  "getTarget descendants environment fltr options =
     (case possibleTargets descendants environment fltr options of
        Inl (TestSearchMissError message) \<Rightarrow> ([message], [])
      | Inr candidates \<Rightarrow>
          (let onlyTarget = find isOnly candidates;
               filterTest = (case sanitize fltr of None \<Rightarrow> [] | Some f \<Rightarrow> f)
           in ([], case onlyTarget of
                     Some t \<Rightarrow> [t]
                   | None \<Rightarrow> filter (testMatches filterTest) candidates)))"

subsection \<open>The test run\<close>

text \<open>
  What the run consumes from its collaborators: the environment builder (\<open>None\<close>: it
  throws), the validation (\<open>False\<close>: it throws), the traversals
  \<^verbatim>\<open>node.descendants\<close> and \<^verbatim>\<open>environment.forEach\<close>, the construction of
  the interpreter by \<^verbatim>\<open>interpret\<close> (the field \<open>interpretEnv\<close>; \<open>False\<close>: it
  throws) and the execution of one test on a fork of the interpreter (\<open>True\<close>: the
  test passes, \<open>False\<close>: it throws).
\<close>

record collaborators =
  buildEnvironmentForProject :: "string \<Rightarrow> node option"
  validateEnvironment :: "node \<Rightarrow> bool \<Rightarrow> bool"
  descendantsOf :: "node \<Rightarrow> node list"
  forEachNode :: "node \<Rightarrow> node list"
  interpretEnv :: "node \<Rightarrow> bool"
  exec :: "node \<Rightarrow> bool"

text \<open>
  What the run prints and logs, in order: a message of \<^verbatim>\<open>logger.error\<close> from the
  resolver, the line \<^verbatim>\<open>Running n tests...\<close>, one line per executed test and per
  entity that contains a target, the detail of each failure, the entry of the
  file logger \<^verbatim>\<open>{ok, failed}\<close>, and the summary on the console, which prints the
  number of failing tests only when there is one. \<open>HandledError\<close> is the call of
  \<^verbatim>\<open>handleError\<close> in the outer \<^verbatim>\<open>catch\<close>.
\<close>

datatype log =
    LoggerError string
  | RunningTests nat
  | Passed node
  | Failed node
  | Heading node
  | FailureDetail node
  | FileLog nat nat
  | Summary nat "nat option"
  | HandledError

record run =
  exitCode :: "nat option"
  printed :: "log list"

definition isEntity :: "kind \<Rightarrow> bool" where
  "isEntity k = (k = Package \<or> k = Describe \<or> k = Test \<or> k = Entity)"

text \<open>
  The callback of \<^verbatim>\<open>environment.forEach\<close>, on the successes counted, the
  failures collected and the lines printed so far.
\<close>

definition visitNode ::
  "collaborators \<Rightarrow> node list \<Rightarrow> node \<Rightarrow> nat \<times> node list \<times> log list \<Rightarrow> nat \<times> node list \<times> log list" where
  "visitNode c targets n acc =
     (case acc of (successes, failures, out) \<Rightarrow>
        if kind n = Test then
          (if n \<in> set targets then
             (if exec c n then (successes + 1, failures, out @ [Passed n])
              else (successes, failures @ [n], out @ [Failed n]))
           else acc)
        else if isEntity (kind n) then
          (if list_ex (\<lambda>target. target \<in> set (descendantsOf c n)) targets
           then (successes, failures, out @ [Heading n])
           else acc)
        else acc)"

text \<open>The default export of the test command.\<close>

definition runTests :: "collaborators \<Rightarrow> string option \<Rightarrow> Options \<Rightarrow> run" where
  "runTests c fltr options =
     (if \<not> validateParameters fltr options then \<lparr>exitCode = Some 1, printed = [HandledError]\<rparr>
      else
        (case buildEnvironmentForProject c (project options) of
           None \<Rightarrow> \<lparr>exitCode = Some 1, printed = [HandledError]\<rparr>
         | Some environment \<Rightarrow>
             if \<not> validateEnvironment c environment (skipValidations options)
             then \<lparr>exitCode = Some 1, printed = [HandledError]\<rparr>
             else
               (case getTarget (descendantsOf c) environment fltr options of
                  (errors, targets) \<Rightarrow>
                    (let out0 = map LoggerError errors @ [RunningTests (length targets)] in
                     if \<not> interpretEnv c environment
                     then \<lparr>exitCode = Some 1, printed = out0 @ [HandledError]\<rparr>
                     else
                       (case fold (visitNode c targets) (forEachNode c environment) (0, [], out0) of
                          (successes, failures, out1) \<Rightarrow>
                            \<lparr>exitCode = (if failures \<noteq> [] then Some 2 else None),
                             printed = out1 @ map FailureDetail failures
                               @ [FileLog successes (length failures),
                                  Summary successes
                                    (if failures \<noteq> [] then Some (length failures) else None)]\<rparr>)))))"

subsection \<open>Selection misses, in the words of the specification\<close>

text \<open>
  The selection names a file that matches no package of the environment.
\<close>

definition fileMiss :: "(node \<Rightarrow> node list) \<Rightarrow> node \<Rightarrow> Options \<Rightarrow> bool" where
  "fileMiss descendants environment options =
     (case truthyValue (file_option options) of
        None \<Rightarrow> False
      | Some f \<Rightarrow> \<not> list_ex (\<lambda>n. kind n = Package \<and> fileName n = Some f) (descendants environment))"

text \<open>
  The selection names a group that matches no describe of the narrowed scope: the
  environment when no file is named, the first package of the named file otherwise.
\<close>

definition describeMiss :: "(node \<Rightarrow> node list) \<Rightarrow> node \<Rightarrow> Options \<Rightarrow> bool" where
  "describeMiss descendants environment options =
     (case truthyValue (describe options) of
        None \<Rightarrow> False
      | Some d \<Rightarrow>
          (case truthyValue (file_option options) of
             None \<Rightarrow> \<not> list_ex (\<lambda>n. kind n = Describe \<and> name n = quoted d) (descendants environment)
           | Some f \<Rightarrow>
               (case find (\<lambda>n. kind n = Package \<and> fileName n = Some f) (descendants environment) of
                  None \<Rightarrow> False
                | Some p \<Rightarrow> \<not> list_ex (\<lambda>n. kind n = Describe \<and> name n = quoted d) (descendants p))))"

section \<open>Autocompletion\<close>

text \<open>
  The keyword table \<^verbatim>\<open>KEYWORDS\<close> belongs to the language library; its values are
  the parameter \<open>keywords\<close>.
\<close>

definition classes :: "string list" where
  "classes = [''new Date()'', ''new Dictionary()'']"

definition lambdas :: "string list" where
  "lambdas = [''{ n => n > 0 }'']"

definition libs :: "string list" where
  "libs = [''console.println'']"

definition completions :: "string list \<Rightarrow> string list" where
  "completions keywords = keywords @ classes @ lambdas @ libs"

definition autocomplete :: "string list \<Rightarrow> string \<Rightarrow> string list \<times> string" where
  "autocomplete keywords input =
     (let hits = filter (\<lambda>c. startsWith c input) (completions keywords)
      in (if length hits \<noteq> 0 then hits else completions keywords, input))"

section \<open>The interactive session\<close>

subsection \<open>Collaborators and state\<close>

text \<open>What \<^verbatim>\<open>interprete\<close> returns.\<close>

record interpreteResult =
  errored :: bool
  result :: string
  error :: string

text \<open>What \<^verbatim>\<open>interpreteLine\<close> returns: one of the two descriptions.\<close>

datatype description = FailureDescription string string | SuccessDescription string

text \<open>
  The collaborators of the session, on top of those of the test run: the name a
  file has in the environment (\<^verbatim>\<open>getFQN\<close>), the lookup of a node by that name,
  the construction of an interpreter for an environment and an optional
  auto-imported file (registering or linking the REPL package, building the
  evaluation; \<open>None\<close>: it throws), the name of the REPL node of an interpreter, and
  \<^verbatim>\<open>interprete\<close>, which returns its result and the interpreter as the evaluation
  leaves it.
\<close>

record 'i session_collaborators = collaborators +
  getFQN :: "string \<Rightarrow> string \<Rightarrow> string"
  getNodeOrUndefinedByFQN :: "node \<Rightarrow> string \<Rightarrow> node option"
  buildInterpreter :: "node \<Rightarrow> string option \<Rightarrow> 'i option"
  replNodeName :: "'i \<Rightarrow> string"
  interprete :: "'i \<Rightarrow> string \<Rightarrow> interpreteResult \<times> 'i"

text \<open>The options of the session that the model reads.\<close>

record ReplOptions =
  projectPath :: string
  skipValidation :: bool
  host :: string
  port :: string
  skipDiagram :: bool

text \<open>
  What the session does to the terminal, the interpreter and the diagram, in order:
  \<^verbatim>\<open>repl.prompt()\<close>, \<^verbatim>\<open>repl.setPrompt(p)\<close>, a call of \<^verbatim>\<open>interprete\<close> on an
  interpreter and a unit, the \<^verbatim>\<open>console.log\<close> of its description, a call of
  \<^verbatim>\<open>dynamicDiagramClient.onReload\<close> (which pushes a snapshot when the client is
  enabled and does nothing otherwise), the start of the diagram server, the help
  text, a line of \<^verbatim>\<open>logger.info\<close>, and the call of
  \<^verbatim>\<open>buildEnvironmentForProject\<close> on a project by which a reload starts rebuilding
  the environment. The effects of a session are recorded from the moment its first
  interpreter is initialized.
\<close>

datatype 'i event =
    Prompt
  | SetPrompt string
  | Interprete 'i string
  | ConsoleLog description
  | DiagramOnReload 'i
  | StartServer 'i
  | OutputHelp
  | LoggerInfo string
  | BuildEnvironment string

text \<open>
  The mutable state of a session: the current interpreter, the module-level
  \<^verbatim>\<open>history\<close>, the two arrays of \<^verbatim>\<open>multilineState\<close>, whether the diagram
  client is enabled, the options (the session assigns \<^verbatim>\<open>skipDiagram\<close>), the
  auto-import path and name, the effects so far, and the exit code once
  \<^verbatim>\<open>process.exit\<close> was called. \<open>pendingReloads\<close> holds the reload actions that
  are suspended at their \<^verbatim>\<open>await\<close>, oldest first, each as the \<^verbatim>\<open>rerun\<close> flag
  its closure was made with (\<^verbatim>\<open>reload()\<close> for \<^verbatim>\<open>:reload\<close>, \<^verbatim>\<open>reload(true)\<close>
  for \<^verbatim>\<open>:rerun\<close>).
\<close>

record 'i session =
  interpreter :: 'i
  history :: "string list"
  multilineHistory :: "string list"
  brackets :: "string list"
  diagramEnabled :: bool
  sessionOptions :: ReplOptions
  autoImportPath :: "string option"
  autoImportName :: "string option"
  trace :: "'i event list"
  exited :: "nat option"
  pendingReloads :: "bool list"

text \<open>
  Modelled from the spec: the constant \<^verbatim>\<open>ENTER\<close> of the utilities, which is not
  among the sources; it is the line break that submits a line.
\<close>

definition ENTER :: string where
  "ENTER = [CHR 0x0A]"

definition emit :: "'i event list \<Rightarrow> 'i session \<Rightarrow> 'i session" where
  "emit es s = s\<lparr>trace := trace s @ es\<rparr>"

definition mainPrompt :: "'i session \<Rightarrow> string" where
  "mainPrompt s =
     ''wollok'' @ (case truthyValue (autoImportName s) of None \<Rightarrow> [] | Some n \<Rightarrow> '':'' @ n) @ ''> ''"

subsection \<open>Evaluation\<close>

definition interpreteLine ::
  "('i, 'a) session_collaborators_scheme \<Rightarrow> 'i \<Rightarrow> string \<Rightarrow> description \<times> 'i" where
  "interpreteLine c i line =
     (case interprete c i line of
        (r, i') \<Rightarrow>
          (if errored r then FailureDescription (result r) (error r)
           else SuccessDescription (result r), i'))"

text \<open>
  The three statements that both branches of the line handler run on a complete
  unit: push it on the history, print its interpretation, notify the diagram.
\<close>

definition evaluate ::
  "('i, 'a) session_collaborators_scheme \<Rightarrow> string \<Rightarrow> 'i session \<Rightarrow> 'i session" where
  "evaluate c unit s =
     (case interpreteLine c (interpreter s) unit of
        (shown, i') \<Rightarrow>
          s\<lparr>history := history s @ [unit],
            interpreter := i',
            trace := trace s @ [Interprete (interpreter s) unit, ConsoleLog shown, DiagramOnReload i']\<rparr>)"

subsection \<open>The multiline handler\<close>

definition finished :: "'i session \<Rightarrow> bool" where
  "finished s = (length (brackets s) = 0)"

text \<open>
  \<^verbatim>\<open>multilineHandler\<close> returns the state and the array it returns (the pending
  lines when the brackets are closed, the empty array otherwise). \<^verbatim>\<open>pop\<close> on an
  empty array leaves it empty.
\<close>

definition multilineHandler :: "string \<Rightarrow> 'i session \<Rightarrow> 'i session \<times> string list" where
  "multilineHandler line s =
     (let s1 = s\<lparr>multilineHistory := multilineHistory s @ [line]\<rparr>;
          s2 = (if endsWith line ''{'' then s1\<lparr>brackets := brackets s1 @ [''{'']\<rparr> else s1);
          s3 = (if endsWith line ''}'' then s2\<lparr>brackets := butlast (brackets s2)\<rparr> else s2);
          s4 = emit [SetPrompt (''... '' @ concat (replicate (length (brackets s3)) ''  ''))] s3
      in (s4, if finished s4 then multilineHistory s4 else []))"

subsection \<open>Commands\<close>

text \<open>
  \<^verbatim>\<open>initializeInterpreter\<close>: the new interpreter, or the code the process exits
  with.
\<close>

definition initializeInterpreter ::
  "('i, 'a) session_collaborators_scheme \<Rightarrow> string option \<Rightarrow> ReplOptions \<Rightarrow> nat + 'i" where
  "initializeInterpreter c path opts =
     (case buildEnvironmentForProject c (projectPath opts) of
        None \<Rightarrow> Inl 12
      | Some environment \<Rightarrow>
          if \<not> validateEnvironment c environment (skipValidation opts) then Inl 12
          else
            (case truthyValue path of
               Some file \<Rightarrow>
                 (case getNodeOrUndefinedByFQN c environment (getFQN c (projectPath opts) file) of
                    None \<Rightarrow> Inl 11
                  | Some entity \<Rightarrow>
                      if kind entity = Package
                      then (case buildInterpreter c environment (Some file) of
                              None \<Rightarrow> Inl 12
                            | Some i \<Rightarrow> Inr i)
                      else Inl 11)
             | None \<Rightarrow>
                 (case buildInterpreter c environment None of
                    None \<Rightarrow> Inl 12
                  | Some i \<Rightarrow> Inr i)))"

text \<open>
  \<^verbatim>\<open>initializeClient\<close>: a disabled client when the diagram is skipped, otherwise
  the server is started and the client is enabled. \<^verbatim>\<open>onReloadClient\<close> assigns the
  client after an \<^verbatim>\<open>await\<close> on a function that does not wait; nothing reads the
  client in between, so the model assigns it at once.
\<close>

definition initializeClient :: "'i \<Rightarrow> 'i session \<Rightarrow> 'i session" where
  "initializeClient i s =
     (if skipDiagram (sessionOptions s) then s\<lparr>diagramEnabled := False\<rparr>
      else emit [StartServer i] (s\<lparr>diagramEnabled := True\<rparr>))"

definition onReloadClient :: "bool \<Rightarrow> 'i option \<Rightarrow> 'i session \<Rightarrow> 'i session" where
  "onReloadClient activateDiagram newInterpreter s =
     (let selectedInterpreter = (case newInterpreter of None \<Rightarrow> interpreter s | Some i \<Rightarrow> i)
      in if activateDiagram \<and> \<not> diagramEnabled s
         then initializeClient selectedInterpreter
                (s\<lparr>sessionOptions := (sessionOptions s)\<lparr>skipDiagram := \<not> activateDiagram\<rparr>\<rparr>)
         else emit [DiagramOnReload selectedInterpreter,
                    LoggerInfo (''Dynamic diagram reloaded at http://'' @ host (sessionOptions s) @ '':''
                                @ port (sessionOptions s)),
                    Prompt] s)"

text \<open>
  The commands that the line handler dispatches on the first token of the line, by
  name or alias; a token that names no command runs the default action, which prints
  the help. The tokens after the first are accepted and ignored.
\<close>

datatype command = Quit | Reload | Rerun | Diagram | Help | Unknown

definition parseCommand :: "string \<Rightarrow> command" where
  "parseCommand line =
     (let token = firstToken line in
      if token \<in> set ['':quit'', '':q'', '':exit''] then Quit
      else if token \<in> set ['':reload'', '':r''] then Reload
      else if token \<in> set ['':rerun'', '':rr''] then Rerun
      else if token \<in> set ['':diagram'', '':d''] then Diagram
      else if token \<in> set ['':help'', '':h''] then Help
      else Unknown)"

text \<open>
  What \<^verbatim>\<open>commandHandler.parse\<close> does before it returns to the line handler. The
  actions of reload and rerun are asynchronous: \<open>startReload\<close> is what they do
  before they suspend at their \<^verbatim>\<open>await\<close> (they log and call the environment
  builder); the suspended action is kept with its flag, and what follows the
  \<^verbatim>\<open>await\<close> is \<open>reloadSettled\<close> below.
\<close>

definition startReload :: "bool \<Rightarrow> 'i session \<Rightarrow> 'i session" where
  "startReload rerun s =
     (emit [LoggerInfo ''Reloading environment'',
            BuildEnvironment (projectPath (sessionOptions s))] s)
       \<lparr>pendingReloads := pendingReloads s @ [rerun]\<rparr>"

definition runCommand :: "string \<Rightarrow> 'i session \<Rightarrow> 'i session" where
  "runCommand line s =
     (case parseCommand line of
        Quit \<Rightarrow> s\<lparr>exited := Some 0\<rparr>
      | Reload \<Rightarrow> startReload False s
      | Rerun \<Rightarrow> startReload True s
      | Diagram \<Rightarrow> onReloadClient True None s
      | Help \<Rightarrow> emit [OutputHelp] s
      | Unknown \<Rightarrow> emit [OutputHelp] s)"

subsection \<open>The line handler\<close>

text \<open>
  The branch of the line handler for a line in multiline mode: the line is handed
  to \<^verbatim>\<open>multilineHandler\<close>; when that returns the pending lines, they are joined
  by line feeds, evaluated as one unit, the prompt is restored and the two arrays of
  \<^verbatim>\<open>multilineState\<close> are emptied.
\<close>

definition feed ::
  "('i, 'a) session_collaborators_scheme \<Rightarrow> string \<Rightarrow> 'i session \<Rightarrow> 'i session" where
  "feed c line s =
     (case multilineHandler line s of
        (s1, multiline) \<Rightarrow>
          if length multiline \<noteq> 0
          then (emit [SetPrompt (mainPrompt s1)] (evaluate c (join ''\<newline>'' multiline) s1))
                 \<lparr>brackets := [], multilineHistory := []\<rparr>
          else s1)"

text \<open>
  The listener of the \<^verbatim>\<open>line\<close> event. Nothing runs once the process has exited.
\<close>

definition onLine ::
  "('i, 'a) session_collaborators_scheme \<Rightarrow> string \<Rightarrow> 'i session \<Rightarrow> 'i session" where
  "onLine c raw s =
     (if exited s \<noteq> None then s
      else
        (let line = trim raw;
             isMultiline = (\<not> finished s \<or> endsWith line ''{'')
         in if length line \<noteq> 0 then
              (if startsWith line '':'' then
                 (let s1 = runCommand line s
                  in if exited s1 \<noteq> None then s1 else emit [Prompt] s1)
               else if isMultiline then emit [Prompt] (feed c line s)
               else emit [Prompt] (evaluate c line s))
            else emit [Prompt] s))"

subsection \<open>Reload and rerun\<close>

text \<open>
  \<^verbatim>\<open>repl.write(data)\<close> of the terminal: the data is taken as typed input, and every
  line that a line ending (line feed, carriage return, or both) completes is
  delivered to the line listener before \<^verbatim>\<open>write\<close> returns. \<open>lineEvents cur data\<close>
  are those lines, \<open>cur\<close> being the line typed so far; the session writes when
  nothing is typed, so \<open>repl_write\<close> starts from the empty line.
\<close>

fun lineEvents :: "string \<Rightarrow> string \<Rightarrow> string list" where
  "lineEvents cur [] = []"
| "lineEvents cur (c # cs) =
     (if c = CHR 0x0A then cur # lineEvents [] cs
      else if c = CHR 0x0D then
        (case cs of
           [] \<Rightarrow> [cur]
         | c' # cs' \<Rightarrow> if c' = CHR 0x0A then cur # lineEvents [] cs' else cur # lineEvents [] cs)
      else lineEvents (cur @ [c]) cs)"

definition repl_write ::
  "('i, 'a) session_collaborators_scheme \<Rightarrow> string \<Rightarrow> 'i session \<Rightarrow> 'i session" where
  "repl_write c data s = fold (onLine c) (lineEvents [] data) s"

definition onReloadInterpreter ::
  "('i, 'a) session_collaborators_scheme \<Rightarrow> 'i \<Rightarrow> bool \<Rightarrow> 'i session \<Rightarrow> 'i session" where
  "onReloadInterpreter c newInterpreter rerun s =
     (let previousCommands = history s;
          s1 = s\<lparr>interpreter := newInterpreter, history := []\<rparr>;
          s2 = (if rerun
                then fold (\<lambda>command st. repl_write c (command @ ENTER) (emit [Prompt] st))
                       previousCommands s1
                else s1)
      in emit [Prompt] s2)"

text \<open>
  What the action of reload (\<open>rerun = False\<close>) or rerun (\<open>rerun = True\<close>) does once
  the build it awaits has settled: the process exits when the interpreter could not
  be initialized, otherwise the interpreter is installed and the client reloaded.
  The flag is the one the closure of the action was made with; \<open>buildSettled\<close> below
  takes it from the suspended action that resumes.
  The client receives the interpreter object that was installed, in the state the
  replay has left it in. The line handler has returned to the terminal by then;
  lines that arrive while the build is awaited are handled by \<open>onLine\<close> before
  this step.
\<close>

definition reloadSettled ::
  "('i, 'a) session_collaborators_scheme \<Rightarrow> bool \<Rightarrow> 'i session \<Rightarrow> 'i session" where
  "reloadSettled c rerun s =
     (if exited s \<noteq> None then s
      else
        (case initializeInterpreter c (autoImportPath s) (sessionOptions s) of
           Inl code \<Rightarrow> s\<lparr>exited := Some code\<rparr>
         | Inr i \<Rightarrow>
             (let s1 = onReloadInterpreter c i rerun s
              in onReloadClient (skipDiagram (sessionOptions s1)) (Some (interpreter s1)) s1)))"


text \<open>
  \<^verbatim>\<open>replFn\<close>: the session as it waits for its first line, or the code the process
  exits with.
\<close>

definition replFn ::
  "('i, 'a) session_collaborators_scheme \<Rightarrow> string option \<Rightarrow> ReplOptions \<Rightarrow> nat + 'i session" where
  "replFn c path opts =
     (case initializeInterpreter c path opts of
        Inl code \<Rightarrow> Inl code
      | Inr i \<Rightarrow>
          Inr (emit [Prompt]
                 (initializeClient i
                    \<lparr>interpreter = i, history = [], multilineHistory = [], brackets = [],
                     diagramEnabled = False, sessionOptions = opts, autoImportPath = path,
                     autoImportName = (case truthyValue path of
                                         None \<Rightarrow> path
                                       | Some _ \<Rightarrow> Some (replNodeName c i)),
                     trace = [], exited = None, pendingReloads = []\<rparr>)))"

text \<open>The units evaluated in a trace, each with the interpreter it was evaluated on.\<close>

fun evaluations :: "'i event list \<Rightarrow> ('i \<times> string) list" where
  "evaluations [] = []"
| "evaluations (Interprete i u # es) = (i, u) # evaluations es"
| "evaluations (e # es) = evaluations es"

subsection \<open>Block markers, in the words of the specification\<close>

text \<open>
  A line opens a block when it ends with an opening brace and closes one when it
  ends with a closing brace. The net open depth of a sequence of lines is the number
  of its openers minus the number of its closers. The markers of a sequence are
  balanced overall when the net depth is positive after every line but the last and
  zero after the last.
\<close>

definition opens :: "string \<Rightarrow> bool" where
  "opens line = endsWith line ''{''"

definition closes :: "string \<Rightarrow> bool" where
  "closes line = endsWith line ''}''"

definition netDepth :: "string list \<Rightarrow> int" where
  "netDepth ls = int (length (filter opens ls)) - int (length (filter closes ls))"

definition balancedAtEnd :: "string list \<Rightarrow> bool" where
  "balancedAtEnd ls =
     (ls \<noteq> [] \<and> netDepth ls = 0 \<and> (\<forall>k\<in>{1..<length ls}. 0 < netDepth (take k ls)))"




subsection \<open>Reachable sessions and their invariant\<close>

text \<open>
  The terminal delivers a line without its line ending. A session is reachable when
  it is a started session, or a reachable session after one more line or after the
  build of a suspended reload action has settled.
\<close>

definition singleLine :: "string \<Rightarrow> bool" where
  "singleLine l = (CHR 0x0A \<notin> set l \<and> CHR 0x0D \<notin> set l)"


text \<open>
  The lines that reach the multiline handler or the evaluation: trimmed, not empty,
  no command, without line ending.
\<close>

definition fedLine :: "string \<Rightarrow> bool" where
  "fedLine l = (l \<noteq> [] \<and> trim l = l \<and> \<not> startsWith l '':'' \<and> singleLine l)"

text \<open>The array of brackets after the multiline handler has seen the lines.\<close>

definition bracketStep :: "string list \<Rightarrow> string \<Rightarrow> string list" where
  "bracketStep b l =
     (let b1 = (if endsWith l ''{'' then b @ [''{''] else b)
      in if endsWith l ''}'' then butlast b1 else b1)"

definition stack :: "string list \<Rightarrow> string list \<Rightarrow> string list" where
  "stack b ls = fold (\<lambda>l b. bracketStep b l) ls b"

text \<open>
  The lines of a unit: fed lines after which the brackets are closed, and not
  before. A unit is such lines joined by line feeds.
\<close>

definition unitLines :: "string list \<Rightarrow> bool" where
  "unitLines ls =
     (ls \<noteq> [] \<and> (\<forall>l\<in>set ls. fedLine l) \<and> stack [] ls = []
      \<and> (\<forall>k\<in>{1..<length ls}. stack [] (take k ls) \<noteq> []))"




text \<open>
  What the specification says of the accumulator, for a step function (the multiline
  branch \<open>feed\<close>, or the whole line handler) run over lines from a session \<open>s\<close>.
  \<open>emitsOneUnit\<close>: no unit is evaluated or recorded before the last line, the last
  line evaluates and records the lines joined by line feeds, and the pending lines
  and the brackets are empty afterwards. \<open>staysSilent\<close>: the lines \<open>ms\<close> that follow
  \<open>ls\<close> evaluate and record nothing and leave the brackets open.
\<close>

definition emitsOneUnit ::
  "(string \<Rightarrow> 'i session \<Rightarrow> 'i session) \<Rightarrow> 'i session \<Rightarrow> string list \<Rightarrow> bool" where
  "emitsOneUnit step s ls =
     ((\<forall>k<length ls.
         evaluations (trace (fold step (take k ls) s)) = evaluations (trace s)
         \<and> history (fold step (take k ls) s) = history s)
      \<and> evaluations (trace (fold step ls s))
        = evaluations (trace s) @ [(interpreter s, join ''\<newline>'' ls)]
      \<and> history (fold step ls s) = history s @ [join ''\<newline>'' ls]
      \<and> multilineHistory (fold step ls s) = []
      \<and> brackets (fold step ls s) = [])"

definition staysSilent ::
  "(string \<Rightarrow> 'i session \<Rightarrow> 'i session) \<Rightarrow> 'i session \<Rightarrow> string list \<Rightarrow> string list \<Rightarrow> bool" where
  "staysSilent step s ls ms =
     (evaluations (trace (fold step (ls @ ms) s)) = evaluations (trace (fold step ls s))
      \<and> history (fold step (ls @ ms) s) = history (fold step ls s)
      \<and> brackets (fold step (ls @ ms) s) \<noteq> [])"

subsection \<open>Example environments\<close>

text \<open>
  A project with one package \<^verbatim>\<open>example\<close> (file \<^verbatim>\<open>example.wtest\<close>) that
  holds the given tests directly. \<open>testNode i nm only\<close> is the test declared as
  \<^verbatim>\<open>test "nm"\<close>, marked only when \<open>only\<close> holds.
\<close>

definition exampleEnvironment :: node where
  "exampleEnvironment =
     \<lparr>nodeId = 0, kind = Environment, name = [], fileName = None, isOnly = False,
      fullyQualifiedName = []\<rparr>"

definition examplePackage :: node where
  "examplePackage =
     \<lparr>nodeId = 1, kind = Package, name = ''example'', fileName = Some ''example.wtest'',
      isOnly = False, fullyQualifiedName = ''example''\<rparr>"

definition testNode :: "nat \<Rightarrow> string \<Rightarrow> bool \<Rightarrow> node" where
  "testNode i nm only =
     \<lparr>nodeId = i, kind = Test, name = quoted nm, fileName = None, isOnly = only,
      fullyQualifiedName = ''example.'' @ quoted nm\<rparr>"

definition exampleDescendants :: "node list \<Rightarrow> node \<Rightarrow> node list" where
  "exampleDescendants tests n =
     (if kind n = Environment then examplePackage # tests
      else if kind n = Package then tests
      else [])"

definition noOptions :: Options where
  "noOptions =
     \<lparr>file_option = None, describe = None, test = None, project = ''.'',
      skipValidations = False\<rparr>"

definition exampleCollaborators :: "node list \<Rightarrow> (node \<Rightarrow> bool) \<Rightarrow> collaborators" where
  "exampleCollaborators tests passes =
     \<lparr>buildEnvironmentForProject = (\<lambda>_. Some exampleEnvironment),
      validateEnvironment = (\<lambda>_ _. True),
      descendantsOf = exampleDescendants tests,
      forEachNode = (\<lambda>n. n # exampleDescendants tests n),
      interpretEnv = (\<lambda>_. True),
      exec = passes\<rparr>"

text \<open>
  An example session: the interpreter is the list of the units it has evaluated, a
  unit fails when it is \<^verbatim>\<open>1 / 0\<close>, the project holds the package above and the
  diagram is skipped.
\<close>

definition exampleSessionCollaborators :: "string list session_collaborators" where
  "exampleSessionCollaborators =
     \<lparr>buildEnvironmentForProject = (\<lambda>_. Some exampleEnvironment),
      validateEnvironment = (\<lambda>_ _. True),
      descendantsOf = exampleDescendants [],
      forEachNode = (\<lambda>n. n # exampleDescendants [] n),
      interpretEnv = (\<lambda>_. True),
      exec = (\<lambda>_. True),
      getFQN = (\<lambda>_ f. takeWhile (\<lambda>c. c \<noteq> CHR ''.'') f),
      getNodeOrUndefinedByFQN =
        (\<lambda>e fqn. find (\<lambda>n. fullyQualifiedName n = fqn) (exampleDescendants [] e)),
      buildInterpreter = (\<lambda>_ _. Some []),
      replNodeName = (\<lambda>_. ''example''),
      interprete =
        (\<lambda>i u. (\<lparr>errored = (u = ''1 / 0''), result = u, error = ''division by zero''\<rparr>, i @ [u]))\<rparr>"

definition exampleReplOptions :: ReplOptions where
  "exampleReplOptions =
     \<lparr>projectPath = ''.'', skipValidation = False, host = ''localhost'', port = ''3000'',
      skipDiagram = True\<rparr>"

definition exampleSession :: "string list session" where
  "exampleSession =
     \<lparr>interpreter = [], history = [], multilineHistory = [], brackets = [],
      diagramEnabled = False, sessionOptions = exampleReplOptions, autoImportPath = None,
      autoImportName = None, trace = [Prompt], exited = None, pendingReloads = []\<rparr>"



section \<open>Properties of the string primitives\<close>

lemma startsWith_prefix: "startsWith s p = prefix p s"
  by (induction s p rule: startsWith.induct) auto

lemma endsWith_suffix: "endsWith s p = suffix p s"
  by (simp add: endsWith_def startsWith_prefix suffix_to_prefix)

lemma str_includes_sublist: "str_includes s sub = sublist sub s"
  by (induction s) (simp_all add: startsWith_prefix sublist_Cons_right)

section \<open>Properties of the resolver\<close>

lemma find_isOnly_first:
  "\<forall>x\<in>set pre. \<not> isOnly x \<Longrightarrow> isOnly t \<Longrightarrow> find isOnly (pre @ t # post) = Some t"
  by (induction pre) simp_all

text \<open>
  C9. When several candidates are marked only, the resolver returns exactly one test:
  the first only-marked candidate in the order of the traversal. The candidates are
  split at that test: none before it is marked only, whatever follows it (other
  only-marked tests included) is dropped, and dropped silently: the resolver passes
  nothing to \<^verbatim>\<open>logger.error\<close>.
\<close>

theorem getTarget_first_only:
  assumes "possibleTargets descendants environment fltr options = Inr (pre @ t # post)"
    and "\<forall>x\<in>set pre. \<not> isOnly x"
    and "isOnly t"
  shows "getTarget descendants environment fltr options = ([], [t])"
  using assms by (simp add: getTarget_def find_isOnly_first)

theorem getTarget_first_only_witness:
  "getTarget
     (exampleDescendants [testNode 2 ''a'' False, testNode 3 ''b'' True, testNode 4 ''c'' True])
     exampleEnvironment None noOptions = ([], [testNode 3 ''b'' True])"
proof -
  have cands: "possibleTargets
      (exampleDescendants [testNode 2 ''a'' False, testNode 3 ''b'' True, testNode 4 ''c'' True])
      exampleEnvironment None noOptions
      = Inr ([testNode 2 ''a'' False] @ testNode 3 ''b'' True # [testNode 4 ''c'' True])"
    by (simp add: possibleTargets_def getBaseNode_def getTestFilter_def truthy_def
        truthyValue_def noOptions_def exampleDescendants_def exampleEnvironment_def
        examplePackage_def testNode_def)
  have before: "\<forall>x\<in>set [testNode 2 ''a'' False]. \<not> isOnly x"
    by (simp add: testNode_def)
  have marked: "isOnly (testNode 3 ''b'' True)"
    by (simp add: testNode_def)
  show ?thesis
    by (rule getTarget_first_only [OF cands before marked])
qed

lemma find_isOnly_Some:
  "x \<in> set xs \<Longrightarrow> isOnly x \<Longrightarrow> \<exists>y. find isOnly xs = Some y \<and> y \<in> set xs \<and> isOnly y"
  by (induction xs) auto

text \<open>
  C1. If some candidate (a test of the base scope that survives the test-name filter)
  is marked only, the result is a single only-marked candidate, whatever the free-text
  filter is and whichever candidates it matches; when \<open>t\<close> is the one candidate marked
  only, the result is \<open>[t]\<close>.
\<close>

theorem getTarget_only_short_circuit:
  assumes "possibleTargets descendants environment fltr options = Inr candidates"
    and "t \<in> set candidates"
    and "isOnly t"
  shows "\<exists>t'. snd (getTarget descendants environment fltr options) = [t']
           \<and> t' \<in> set candidates \<and> isOnly t'
           \<and> ((\<forall>x\<in>set candidates. isOnly x \<longrightarrow> x = t) \<longrightarrow> t' = t)"
proof -
  from find_isOnly_Some [OF assms(2,3)]
  obtain y where y: "find isOnly candidates = Some y" "y \<in> set candidates" "isOnly y"
    by blast
  have "snd (getTarget descendants environment fltr options) = [y]"
    using assms(1) y(1) by (simp add: getTarget_def)
  with y show ?thesis by blast
qed

text \<open>
  The scenario of the specification: tests alpha (marked only), beta one and beta two
  under one scope; the free-text filter \<^verbatim>\<open>beta\<close> matches the last two and not
  alpha; the resolver returns alpha alone.
\<close>

theorem getTarget_only_short_circuit_witness:
  "filter (testMatches ''beta'')
     [testNode 2 ''alpha'' True, testNode 3 ''beta one'' False, testNode 4 ''beta two'' False]
     = [testNode 3 ''beta one'' False, testNode 4 ''beta two'' False]
   \<and> snd (getTarget
          (exampleDescendants
             [testNode 2 ''alpha'' True, testNode 3 ''beta one'' False, testNode 4 ''beta two'' False])
          exampleEnvironment (Some ''beta'') noOptions) = [testNode 2 ''alpha'' True]"
proof -
  let ?ts = "[testNode 2 ''alpha'' True, testNode 3 ''beta one'' False, testNode 4 ''beta two'' False]"
  have cands: "possibleTargets (exampleDescendants ?ts) exampleEnvironment (Some ''beta'') noOptions
      = Inr ?ts"
    by (simp add: possibleTargets_def getBaseNode_def getTestFilter_def truthy_def
        truthyValue_def noOptions_def exampleDescendants_def exampleEnvironment_def
        examplePackage_def testNode_def)
  have mem: "testNode 2 ''alpha'' True \<in> set ?ts"
    by simp
  have marked: "isOnly (testNode 2 ''alpha'' True)"
    by (simp add: testNode_def)
  have uniq: "\<forall>x\<in>set ?ts. isOnly x \<longrightarrow> x = testNode 2 ''alpha'' True"
    by (simp add: testNode_def)
  have matches: "filter (testMatches ''beta'') ?ts
      = [testNode 3 ''beta one'' False, testNode 4 ''beta two'' False]"
    by (simp add: testMatches_def sanitize_def testNode_def quoted_def dquote_def)
  from getTarget_only_short_circuit [OF cands mem marked] uniq
  have "snd (getTarget (exampleDescendants ?ts) exampleEnvironment (Some ''beta'') noOptions)
      = [testNode 2 ''alpha'' True]"
    by blast
  with matches show ?thesis by simp
qed

lemma find_isOnly_None: "\<forall>x\<in>set xs. \<not> isOnly x \<Longrightarrow> find isOnly xs = None"
  by (induction xs) simp_all

lemma testMatches_sublist:
  "testMatches f t = sublist f (filter (\<lambda>c. c \<noteq> dquote) (fullyQualifiedName t))"
  by (auto simp add: testMatches_def sanitize_def str_includes_sublist)

text \<open>
  C7 (as amended). When no candidate is marked only, a free-text filter keeps exactly
  the tests of the base scope whose fully-qualified name, double quotes removed,
  contains the filter, double quotes removed, as a contiguous run of equal characters
  (so the match is case-sensitive); the result is a filter of the traversal of the
  base scope and keeps its order.
\<close>

theorem getTarget_free_text_filter:
  assumes "getBaseNode descendants environment (Some f) options = Inr base"
    and "\<forall>x\<in>set (filter (getTestFilter (Some f) options) (descendants base)). \<not> isOnly x"
  shows "snd (getTarget descendants environment (Some f) options)
         = filter (\<lambda>t. getTestFilter (Some f) options t
                        \<and> sublist (filter (\<lambda>c. c \<noteq> dquote) f)
                            (filter (\<lambda>c. c \<noteq> dquote) (fullyQualifiedName t)))
             (descendants base)"
proof -
  have "find isOnly (filter (getTestFilter (Some f) options) (descendants base)) = None"
    by (rule find_isOnly_None [OF assms(2)])
  then show ?thesis
    using assms(1)
    by (simp add: getTarget_def possibleTargets_def sanitize_def testMatches_sublist)
qed

text \<open>
  The filter \<^verbatim>\<open>Sum\<close> over the tests testSum, testSub and testSumNeg keeps testSum
  and testSumNeg, in that order.
\<close>

theorem getTarget_free_text_filter_witness:
  "snd (getTarget
          (exampleDescendants
             [testNode 2 ''testSum'' False, testNode 3 ''testSub'' False, testNode 4 ''testSumNeg'' False])
          exampleEnvironment (Some ''Sum'') noOptions)
   = [testNode 2 ''testSum'' False, testNode 4 ''testSumNeg'' False]"
proof -
  let ?ts = "[testNode 2 ''testSum'' False, testNode 3 ''testSub'' False, testNode 4 ''testSumNeg'' False]"
  have base: "getBaseNode (exampleDescendants ?ts) exampleEnvironment (Some ''Sum'') noOptions
      = Inr exampleEnvironment"
    by (simp add: getBaseNode_def truthy_def truthyValue_def)
  have none: "\<forall>x\<in>set (filter (getTestFilter (Some ''Sum'') noOptions)
      (exampleDescendants ?ts exampleEnvironment)). \<not> isOnly x"
    by (simp add: getTestFilter_def truthy_def truthyValue_def exampleDescendants_def
        exampleEnvironment_def examplePackage_def testNode_def)
  have "filter (\<lambda>t. getTestFilter (Some ''Sum'') noOptions t
                   \<and> str_includes (filter (\<lambda>c. c \<noteq> dquote) (fullyQualifiedName t))
                       (filter (\<lambda>c. c \<noteq> dquote) ''Sum''))
          (exampleDescendants ?ts exampleEnvironment)
        = [testNode 2 ''testSum'' False, testNode 4 ''testSumNeg'' False]"
    by (simp add: getTestFilter_def truthy_def truthyValue_def exampleDescendants_def
        exampleEnvironment_def examplePackage_def testNode_def quoted_def dquote_def)
  with getTarget_free_text_filter [OF base none] show ?thesis
    by (simp add: str_includes_sublist)
qed

text \<open>
  The example of the claim as it is written: the filter \<^verbatim>\<open>sum\<close> (lower case)
  over the same three tests selects nothing, since no name contains a lower-case
  \<^verbatim>\<open>sum\<close>.
\<close>

theorem getTarget_sum_example_counterexample:
  "snd (getTarget
          (exampleDescendants
             [testNode 2 ''testSum'' False, testNode 3 ''testSub'' False, testNode 4 ''testSumNeg'' False])
          exampleEnvironment (Some ''sum'') noOptions)
   \<noteq> [testNode 2 ''testSum'' False, testNode 4 ''testSumNeg'' False]
   \<and> snd (getTarget
          (exampleDescendants
             [testNode 2 ''testSum'' False, testNode 3 ''testSub'' False, testNode 4 ''testSumNeg'' False])
          exampleEnvironment (Some ''sum'') noOptions)
     = []"
  by (simp add: getTarget_def possibleTargets_def getBaseNode_def getTestFilter_def truthy_def
      truthyValue_def noOptions_def exampleDescendants_def exampleEnvironment_def
      examplePackage_def testNode_def testMatches_def sanitize_def quoted_def dquote_def)

section \<open>Properties of the test run\<close>

lemma find_None_list_ex: "(find P xs = None) = (\<not> list_ex P xs)"
  by (induction xs) simp_all

lemma not_list_ex_find: "\<not> list_ex P xs \<Longrightarrow> find P xs = None"
  by (simp add: find_None_list_ex)

lemma miss_getBaseNode:
  assumes "\<not> truthy fltr"
    and "fileMiss descendants environment options \<or> describeMiss descendants environment options"
  shows "\<exists>message. getBaseNode descendants environment fltr options = Inl (TestSearchMissError message)"
proof (cases "truthyValue (file_option options)")
  case None
  with assms(2) have "describeMiss descendants environment options"
    by (simp add: fileMiss_def)
  with None assms(1) show ?thesis
    by (auto simp add: describeMiss_def getBaseNode_def not_list_ex_find
        split: option.splits)
next
  case (Some f)
  show ?thesis
  proof (cases "find (\<lambda>n. kind n = Package \<and> fileName n = Some f) (descendants environment)")
    case None
    with Some assms(1) show ?thesis
      by (simp add: getBaseNode_def)
  next
    case (Some p)
    with \<open>truthyValue (file_option options) = Some f\<close> assms(2)
    have "describeMiss descendants environment options"
      by (auto simp add: fileMiss_def find_None_list_ex [symmetric])
    with Some \<open>truthyValue (file_option options) = Some f\<close> assms(1) show ?thesis
      by (auto simp add: describeMiss_def getBaseNode_def not_list_ex_find
          split: option.splits)
  qed
qed

lemma miss_not_truthy:
  assumes "validateParameters fltr options"
    and "fileMiss descendants environment options \<or> describeMiss descendants environment options"
  shows "\<not> truthy fltr"
  using assms
  by (auto simp add: validateParameters_def fileMiss_def describeMiss_def truthy_def
      split: option.splits)

lemma visitNode_no_targets: "visitNode c [] n acc = acc"
  by (cases acc) (simp add: visitNode_def)

lemma fold_visitNode_no_targets: "fold (visitNode c []) ns acc = acc"
  by (induction ns) (simp_all add: visitNode_no_targets)

text \<open>
  C4. A valid selection that names a file matching no package, or a group matching no
  describe of the narrowed scope, makes the resolver pass one message to
  \<^verbatim>\<open>logger.error\<close> and return no test, without throwing. The run around it, once
  the environment is built and validated, goes on: it executes no test, logs
  \<^verbatim>\<open>{ok: 0, failed: 0}\<close>, prints \<^verbatim>\<open>0 passing\<close> (the console names no failing
  count when nothing failed) and returns without calling \<^verbatim>\<open>process.exit\<close>.
\<close>

theorem selection_miss_not_fatal:
  assumes "validateParameters fltr options"
    and "fileMiss (descendantsOf c) environment options
         \<or> describeMiss (descendantsOf c) environment options"
    and "buildEnvironmentForProject c (project options) = Some environment"
    and "validateEnvironment c environment (skipValidations options)"
    and "interpretEnv c environment"
  shows "\<exists>message.
           getTarget (descendantsOf c) environment fltr options = ([message], [])
           \<and> runTests c fltr options
             = \<lparr>exitCode = None,
                printed = [LoggerError message, RunningTests 0, FileLog 0 0, Summary 0 None]\<rparr>"
proof -
  have "\<not> truthy fltr"
    by (rule miss_not_truthy [OF assms(1,2)])
  from miss_getBaseNode [OF this assms(2)]
  obtain message where base:
    "getBaseNode (descendantsOf c) environment fltr options = Inl (TestSearchMissError message)"
    by blast
  then have target: "getTarget (descendantsOf c) environment fltr options = ([message], [])"
    by (simp add: getTarget_def possibleTargets_def)
  have "runTests c fltr options
      = \<lparr>exitCode = None,
         printed = [LoggerError message, RunningTests 0, FileLog 0 0, Summary 0 None]\<rparr>"
    using assms(1,3,4,5) target
    by (simp add: runTests_def fold_visitNode_no_targets)
  with target show ?thesis by blast
qed

text \<open>
  The scenario of the specification: the selection names the file \<^verbatim>\<open>f.wlk\<close>, the
  only package comes from \<^verbatim>\<open>example.wtest\<close>.
\<close>

theorem selection_miss_not_fatal_witness:
  "getTarget (exampleDescendants [testNode 2 ''a'' False]) exampleEnvironment None
     (noOptions\<lparr>file_option := Some ''f.wlk''\<rparr>)
     = ([''File '' @ [squote] @ ''f.wlk'' @ [squote] @ '' not found''], [])
   \<and> runTests (exampleCollaborators [testNode 2 ''a'' False] (\<lambda>_. False)) None
       (noOptions\<lparr>file_option := Some ''f.wlk''\<rparr>)
     = \<lparr>exitCode = None,
        printed = [LoggerError (''File '' @ [squote] @ ''f.wlk'' @ [squote] @ '' not found''),
                  RunningTests 0, FileLog 0 0, Summary 0 None]\<rparr>"
proof -
  let ?c = "exampleCollaborators [testNode 2 ''a'' False] (\<lambda>_. False)"
  let ?o = "noOptions\<lparr>file_option := Some ''f.wlk''\<rparr>"
  have valid: "validateParameters None ?o"
    by (simp add: validateParameters_def truthy_def truthyValue_def)
  have miss: "fileMiss (descendantsOf ?c) exampleEnvironment ?o
      \<or> describeMiss (descendantsOf ?c) exampleEnvironment ?o"
    by (simp add: fileMiss_def truthyValue_def exampleCollaborators_def exampleDescendants_def
        exampleEnvironment_def examplePackage_def testNode_def)
  have built: "buildEnvironmentForProject ?c (project ?o) = Some exampleEnvironment"
    by (simp add: exampleCollaborators_def)
  have validated: "validateEnvironment ?c exampleEnvironment (skipValidations ?o)"
    by (simp add: exampleCollaborators_def)
  have interp: "interpretEnv ?c exampleEnvironment"
    by (simp add: exampleCollaborators_def)
  have message: "getTarget (exampleDescendants [testNode 2 ''a'' False]) exampleEnvironment None ?o
      = ([''File '' @ [squote] @ ''f.wlk'' @ [squote] @ '' not found''], [])"
    by (simp add: getTarget_def possibleTargets_def getBaseNode_def truthy_def truthyValue_def
        noOptions_def exampleDescendants_def exampleEnvironment_def examplePackage_def
        testNode_def)
  have same: "descendantsOf ?c = exampleDescendants [testNode 2 ''a'' False]"
    by (simp add: exampleCollaborators_def)
  from selection_miss_not_fatal [OF valid miss built validated interp] message same
  show ?thesis by auto
qed

section \<open>Properties of the session\<close>

subsection \<open>Strings and lines\<close>














lemma evaluations_append: "evaluations (a @ b) = evaluations a @ evaluations b"
  by (induction a rule: evaluations.induct) simp_all

lemma not_opens_and_closes: "\<not> (endsWith l ''{'' \<and> endsWith l ''}'')"
  by (cases "rev l") (auto simp add: endsWith_def)

lemma stack_Nil: "stack b [] = b"
  by (simp add: stack_def)

lemma stack_snoc: "stack b (ls @ [l]) = bracketStep (stack b ls) l"
  by (simp add: stack_def)

lemma stack_single_Nil: "(stack [] [l] = []) = (\<not> endsWith l ''{'')"
  using not_opens_and_closes [of l]
  by (auto simp add: stack_def bracketStep_def)

lemma evaluate_eq:
  "evaluate c u s
   = s\<lparr>history := history s @ [u],
       interpreter := snd (interprete c (interpreter s) u),
       trace := trace s
         @ [Interprete (interpreter s) u,
            ConsoleLog (if errored (fst (interprete c (interpreter s) u))
                        then FailureDescription (result (fst (interprete c (interpreter s) u)))
                               (error (fst (interprete c (interpreter s) u)))
                        else SuccessDescription (result (fst (interprete c (interpreter s) u)))),
            DiagramOnReload (snd (interprete c (interpreter s) u))]\<rparr>"
  by (simp add: evaluate_def interpreteLine_def split: prod.splits)

lemma feed_pending:
  assumes "bracketStep (brackets s) l \<noteq> []"
  shows "feed c l s
    = s\<lparr>multilineHistory := multilineHistory s @ [l],
        brackets := bracketStep (brackets s) l,
        trace := trace s
          @ [SetPrompt (''... '' @ concat (replicate (length (bracketStep (brackets s) l)) ''  ''))]\<rparr>"
  using assms
  by (auto simp add: feed_def multilineHandler_def bracketStep_def emit_def finished_def Let_def)

lemma feed_flush:
  assumes "bracketStep (brackets s) l = []"
  shows "feed c l s
    = s\<lparr>history := history s @ [join ''\<newline>'' (multilineHistory s @ [l])],
        interpreter := snd (interprete c (interpreter s) (join ''\<newline>'' (multilineHistory s @ [l]))),
        multilineHistory := [],
        brackets := [],
        trace := trace s
          @ [SetPrompt ''... '',
             Interprete (interpreter s) (join ''\<newline>'' (multilineHistory s @ [l])),
             ConsoleLog (if errored (fst (interprete c (interpreter s) (join ''\<newline>'' (multilineHistory s @ [l]))))
                         then FailureDescription
                                (result (fst (interprete c (interpreter s) (join ''\<newline>'' (multilineHistory s @ [l])))))
                                (error (fst (interprete c (interpreter s) (join ''\<newline>'' (multilineHistory s @ [l])))))
                         else SuccessDescription
                                (result (fst (interprete c (interpreter s) (join ''\<newline>'' (multilineHistory s @ [l])))))),
             DiagramOnReload (snd (interprete c (interpreter s) (join ''\<newline>'' (multilineHistory s @ [l])))),
             SetPrompt (mainPrompt s)]\<rparr>"
  using assms
  by (auto simp add: feed_def multilineHandler_def bracketStep_def emit_def finished_def Let_def
      evaluate_eq mainPrompt_def)


lemma prefixes_snoc:
  assumes "\<forall>k\<in>{1..length (ls @ [l])}. P (take k (ls @ [l]))"
  shows "(\<forall>k\<in>{1..length ls}. P (take k ls)) \<and> P (ls @ [l])"
proof
  show "\<forall>k\<in>{1..length ls}. P (take k ls)"
  proof
    fix k assume k: "k \<in> {1..length ls}"
    then have "k \<in> {1..length (ls @ [l])}"
      by simp
    with assms have "P (take k (ls @ [l]))"
      by blast
    with k show "P (take k ls)"
      by simp
  qed
  have "length (ls @ [l]) \<in> {1..length (ls @ [l])}"
    by simp
  with assms have "P (take (length (ls @ [l])) (ls @ [l]))"
    by blast
  then show "P (ls @ [l])"
    by simp
qed

lemma feed_pending_fold:
  "\<forall>k\<in>{1..length ls}. stack (brackets s) (take k ls) \<noteq> []
   \<Longrightarrow> \<exists>tr. fold (feed c) ls s
           = s\<lparr>multilineHistory := multilineHistory s @ ls,
               brackets := stack (brackets s) ls,
               trace := trace s @ tr\<rparr>
         \<and> evaluations tr = []"
proof (induction ls rule: rev_induct)
  case Nil
  have "fold (feed c) [] s
      = s\<lparr>multilineHistory := multilineHistory s @ [], brackets := stack (brackets s) [],
          trace := trace s @ []\<rparr>"
    by (simp add: stack_Nil)
  then show ?case
    by (metis evaluations.simps(1))
next
  case (snoc l ls)
  from prefixes_snoc [OF snoc.prems]
  have pre: "\<forall>k\<in>{1..length ls}. stack (brackets s) (take k ls) \<noteq> []"
    and whole: "stack (brackets s) (ls @ [l]) \<noteq> []"
    by blast+
  from snoc.IH [OF pre] obtain tr where
    tr: "fold (feed c) ls s
      = s\<lparr>multilineHistory := multilineHistory s @ ls, brackets := stack (brackets s) ls,
          trace := trace s @ tr\<rparr>"
    and ev: "evaluations tr = []"
    by blast
  from whole have ne: "bracketStep (stack (brackets s) ls) l \<noteq> []"
    by (simp add: stack_snoc)
  let ?p = "SetPrompt (''... '' @ concat (replicate (length (bracketStep (stack (brackets s) ls) l)) ''  ''))"
  have "fold (feed c) (ls @ [l]) s
      = s\<lparr>multilineHistory := multilineHistory s @ (ls @ [l]),
          brackets := stack (brackets s) (ls @ [l]),
          trace := trace s @ (tr @ [?p])\<rparr>"
    using ne by (simp add: tr feed_pending stack_snoc)
  moreover have "evaluations (tr @ [?p]) = []"
    by (simp add: evaluations_append ev)
  ultimately show ?case by blast
qed

lemma onLine_fed:
  assumes "exited s = None" and "fedLine l"
  shows "onLine c l s
    = emit [Prompt] (if \<not> finished s \<or> endsWith l ''{'' then feed c l s else evaluate c l s)"
  using assms by (simp add: onLine_def fedLine_def Let_def)

lemma emit_feed_pending:
  assumes "bracketStep (brackets s) l \<noteq> []"
  shows "emit [Prompt] (feed c l s)
    = s\<lparr>multilineHistory := multilineHistory s @ [l],
        brackets := bracketStep (brackets s) l,
        trace := trace s
          @ [SetPrompt (''... '' @ concat (replicate (length (bracketStep (brackets s) l)) ''  '')),
             Prompt]\<rparr>"
  by (simp add: feed_pending [OF assms] emit_def)

lemma bracketStep_Nil_opens:
  "bracketStep [] l \<noteq> [] \<Longrightarrow> endsWith l ''{''"
  by (auto simp add: bracketStep_def split: if_splits)

lemma onLine_pending_fold:
  "exited s = None \<Longrightarrow> \<forall>l\<in>set ls. fedLine l
   \<Longrightarrow> \<forall>k\<in>{1..length ls}. stack (brackets s) (take k ls) \<noteq> []
   \<Longrightarrow> \<exists>tr. fold (onLine c) ls s
           = s\<lparr>multilineHistory := multilineHistory s @ ls,
               brackets := stack (brackets s) ls,
               trace := trace s @ tr\<rparr>
         \<and> evaluations tr = []"
proof (induction ls rule: rev_induct)
  case Nil
  have "fold (onLine c) [] s
      = s\<lparr>multilineHistory := multilineHistory s @ [], brackets := stack (brackets s) [],
          trace := trace s @ []\<rparr>"
    by (simp add: stack_Nil)
  then show ?case
    by (metis evaluations.simps(1))
next
  case (snoc l ls)
  from prefixes_snoc [OF snoc.prems(3)]
  have pre: "\<forall>k\<in>{1..length ls}. stack (brackets s) (take k ls) \<noteq> []"
    and whole: "stack (brackets s) (ls @ [l]) \<noteq> []"
    by blast+
  with snoc.IH snoc.prems(1,2) obtain tr where
    tr: "fold (onLine c) ls s
      = s\<lparr>multilineHistory := multilineHistory s @ ls, brackets := stack (brackets s) ls,
          trace := trace s @ tr\<rparr>"
    and ev: "evaluations tr = []"
    by auto
  let ?s = "s\<lparr>multilineHistory := multilineHistory s @ ls, brackets := stack (brackets s) ls,
          trace := trace s @ tr\<rparr>"
  from whole have ne: "bracketStep (brackets ?s) l \<noteq> []"
    by (simp add: stack_snoc)
  have multi: "\<not> finished ?s \<or> endsWith l ''{''"
    using ne bracketStep_Nil_opens [of l] by (auto simp add: finished_def)
  have fed: "fedLine l"
    using snoc.prems(2) by simp
  have live: "exited ?s = None"
    using snoc.prems(1) by simp
  let ?p = "SetPrompt (''... '' @ concat (replicate (length (bracketStep (stack (brackets s) ls) l)) ''  ''))"
  have "onLine c l ?s = emit [Prompt] (feed c l ?s)"
    using onLine_fed [OF live fed] multi by simp
  also have "\<dots> = s\<lparr>multilineHistory := multilineHistory s @ (ls @ [l]),
          brackets := stack (brackets s) (ls @ [l]),
          trace := trace s @ (tr @ [?p, Prompt])\<rparr>"
    by (simp add: emit_feed_pending [OF ne] stack_snoc)
  finally have "fold (onLine c) (ls @ [l]) s
      = s\<lparr>multilineHistory := multilineHistory s @ (ls @ [l]),
          brackets := stack (brackets s) (ls @ [l]),
          trace := trace s @ (tr @ [?p, Prompt])\<rparr>"
    by (simp add: tr)
  moreover have "evaluations (tr @ [?p, Prompt]) = []"
    by (simp add: evaluations_append ev)
  ultimately show ?case by blast
qed


lemma butlast_prefixes:
  assumes "ls \<noteq> []" and "\<forall>k\<in>{1..<length ls}. P (take k ls)"
  shows "\<forall>k\<in>{1..length (butlast ls)}. P (take k (butlast ls))"
proof (cases ls rule: rev_cases)
  case Nil
  with assms(1) show ?thesis by simp
next
  case (snoc p l)
  show ?thesis
  proof
    fix k assume "k \<in> {1..length (butlast ls)}"
    with snoc have k: "1 \<le> k" "k \<le> length p"
      by simp_all
    with snoc have "k \<in> {1..<length ls}"
      by simp
    with assms(2) have "P (take k ls)"
      by blast
    with snoc k show "P (take k (butlast ls))"
      by simp
  qed
qed

lemma feed_unit:
  assumes clean: "brackets s = []" "multilineHistory s = []"
    and ne: "ls \<noteq> []"
    and closed: "stack [] ls = []"
    and opened: "\<forall>k\<in>{1..<length ls}. stack [] (take k ls) \<noteq> []"
  shows "\<exists>tr. fold (feed c) ls s
           = s\<lparr>history := history s @ [join ''\<newline>'' ls],
               interpreter := snd (interprete c (interpreter s) (join ''\<newline>'' ls)),
               multilineHistory := [],
               brackets := [],
               trace := trace s @ tr\<rparr>
         \<and> evaluations tr = [(interpreter s, join ''\<newline>'' ls)]"
proof -
  let ?p = "butlast ls" and ?l = "last ls"
  have split: "ls = ?p @ [?l]"
    using ne by simp
  have "\<forall>k\<in>{1..length ?p}. stack (brackets s) (take k ?p) \<noteq> []"
    using butlast_prefixes [OF ne opened] clean(1) by simp
  from feed_pending_fold [OF this, of c] obtain tr where
    tr: "fold (feed c) ?p s
      = s\<lparr>multilineHistory := multilineHistory s @ ?p, brackets := stack (brackets s) ?p,
          trace := trace s @ tr\<rparr>"
    and ev: "evaluations tr = []"
    by blast
  let ?s = "s\<lparr>multilineHistory := multilineHistory s @ ?p, brackets := stack (brackets s) ?p,
          trace := trace s @ tr\<rparr>"
  have "stack [] (?p @ [?l]) = []"
    using closed split by simp
  then have flush: "bracketStep (brackets ?s) ?l = []"
    by (simp add: stack_snoc clean(1))
  have joined: "multilineHistory ?s @ [?l] = ls"
    using split clean(2) by simp
  have "fold (feed c) ls s = feed c ?l ?s"
    by (subst split) (simp add: tr)
  then have "fold (feed c) ls s = feed c ?l ?s"
    by simp
  note step = this
  show ?thesis
    apply (subst step)
    apply (subst feed_flush [OF flush])
    apply (subst joined)+
    apply (rule exI [where x = "tr @ [SetPrompt ''... '',
             Interprete (interpreter s) (join ''\<newline>'' ls),
             ConsoleLog (if errored (fst (interprete c (interpreter s) (join ''\<newline>'' ls)))
                         then FailureDescription
                                (result (fst (interprete c (interpreter s) (join ''\<newline>'' ls))))
                                (error (fst (interprete c (interpreter s) (join ''\<newline>'' ls))))
                         else SuccessDescription
                                (result (fst (interprete c (interpreter s) (join ''\<newline>'' ls))))),
             DiagramOnReload (snd (interprete c (interpreter s) (join ''\<newline>'' ls))),
             SetPrompt (mainPrompt s)]"])
    apply (simp add: evaluations_append ev mainPrompt_def)
    done
qed


lemma onLine_unit:
  assumes live: "exited s = None"
    and clean: "brackets s = []" "multilineHistory s = []"
    and unit: "unitLines ls"
  shows "\<exists>tr. fold (onLine c) ls s
           = s\<lparr>history := history s @ [join ''\<newline>'' ls],
               interpreter := snd (interprete c (interpreter s) (join ''\<newline>'' ls)),
               multilineHistory := [],
               brackets := [],
               trace := trace s @ tr @ [Prompt]\<rparr>
         \<and> evaluations tr = [(interpreter s, join ''\<newline>'' ls)]"
proof -
  let ?p = "butlast ls" and ?l = "last ls"
  let ?u = "join ''\<newline>'' ls"
  let ?shown = "ConsoleLog (if errored (fst (interprete c (interpreter s) ?u))
                         then FailureDescription
                                (result (fst (interprete c (interpreter s) ?u)))
                                (error (fst (interprete c (interpreter s) ?u)))
                         else SuccessDescription
                                (result (fst (interprete c (interpreter s) ?u))))"
  from unit have ne: "ls \<noteq> []" and fed: "\<forall>l\<in>set ls. fedLine l"
    and closed: "stack [] ls = []"
    and opened: "\<forall>k\<in>{1..<length ls}. stack [] (take k ls) \<noteq> []"
    by (simp_all add: unitLines_def)
  have split: "ls = ?p @ [?l]"
    using ne by simp
  have fedl: "fedLine ?l"
    using fed ne by simp
  show ?thesis
  proof (cases "?p = []")
    case True
    with split have single: "ls = [?l]"
      by simp
    with closed have "stack [] [?l] = []"
      by simp
    then have "\<not> endsWith ?l ''{''"
      by (simp add: stack_single_Nil)
    then have "onLine c ?l s = emit [Prompt] (evaluate c ?l s)"
      using onLine_fed [OF live fedl] clean(1) by (simp add: finished_def)
    then have step: "fold (onLine c) ls s = emit [Prompt] (evaluate c ?l s)"
      by (subst single) simp
    have u: "?u = ?l"
      by (subst single) simp
    show ?thesis
      apply (subst step)
      apply (subst u)+
      apply (rule exI [where x = "[Interprete (interpreter s) ?l,
            ConsoleLog (if errored (fst (interprete c (interpreter s) ?l))
                        then FailureDescription (result (fst (interprete c (interpreter s) ?l)))
                               (error (fst (interprete c (interpreter s) ?l)))
                        else SuccessDescription (result (fst (interprete c (interpreter s) ?l)))),
            DiagramOnReload (snd (interprete c (interpreter s) ?l))]"])
      apply (simp add: evaluate_eq emit_def clean)
      done
  next
    case False
    have fedp: "\<forall>l\<in>set ?p. fedLine l"
      using fed by (meson in_set_butlastD)
    have "\<forall>k\<in>{1..length ?p}. stack (brackets s) (take k ?p) \<noteq> []"
      using butlast_prefixes [OF ne opened] clean(1) by simp
    from onLine_pending_fold [OF live fedp this, of c] obtain tr where
      tr: "fold (onLine c) ?p s
        = s\<lparr>multilineHistory := multilineHistory s @ ?p, brackets := stack (brackets s) ?p,
            trace := trace s @ tr\<rparr>"
      and ev: "evaluations tr = []"
      by blast
    let ?s = "s\<lparr>multilineHistory := multilineHistory s @ ?p, brackets := stack (brackets s) ?p,
            trace := trace s @ tr\<rparr>"
    have "length ?p \<in> {1..<length ls}"
      using False ne by (cases ls rule: rev_cases) (auto simp add: Suc_leI)
    with opened have "stack [] (take (length ?p) ls) \<noteq> []"
      by blast
    moreover have "take (length ?p) ls = ?p"
      by (metis butlast_conv_take length_butlast)
    ultimately have "stack [] ?p \<noteq> []"
      by simp
    then have multi: "\<not> finished ?s"
      by (simp add: finished_def clean(1))
    have "stack [] (?p @ [?l]) = []"
      using closed split by simp
    then have flush: "bracketStep (brackets ?s) ?l = []"
      by (simp add: stack_snoc clean(1))
    have joined: "multilineHistory ?s @ [?l] = ls"
      using split clean(2) by simp
    have lives: "exited ?s = None"
      using live by simp
    have "fold (onLine c) ls s = onLine c ?l ?s"
      by (subst split) (simp add: tr)
    also have "\<dots> = emit [Prompt] (feed c ?l ?s)"
      using onLine_fed [OF lives fedl] multi by simp
    finally have step: "fold (onLine c) ls s = emit [Prompt] (feed c ?l ?s)" .
    show ?thesis
      apply (subst step)
      apply (subst feed_flush [OF flush])
      apply (subst joined)+
      apply (rule exI [where x = "tr @ [SetPrompt ''... '',
             Interprete (interpreter s) ?u, ?shown,
             DiagramOnReload (snd (interprete c (interpreter s) ?u)),
             SetPrompt (mainPrompt s)]"])
      apply (simp add: evaluations_append ev mainPrompt_def emit_def)
      done
  qed
qed






lemma emit_fields:
  "history (emit es s) = history s"
  "multilineHistory (emit es s) = multilineHistory s"
  "brackets (emit es s) = brackets s"
  "exited (emit es s) = exited s"
  "interpreter (emit es s) = interpreter s"
  "trace (emit es s) = trace s @ es"
  by (simp_all add: emit_def)

























subsection \<open>Net depth and the array of brackets\<close>

lemma netDepth_Nil: "netDepth [] = 0"
  by (simp add: netDepth_def)

lemma netDepth_snoc:
  "netDepth (ls @ [l])
   = netDepth ls + (if endsWith l ''{'' then 1 else 0) - (if endsWith l ''}'' then 1 else 0)"
  by (simp add: netDepth_def opens_def closes_def)

lemma length_bracketStep:
  "int (length (bracketStep b l))
   = (if endsWith l ''{'' then int (length b) + 1
      else if endsWith l ''}'' then (if b = [] then 0 else int (length b) - 1)
      else int (length b))"
  using not_opens_and_closes [of l]
  by (cases b rule: rev_cases) (auto simp add: bracketStep_def)

lemma stack_ge_netDepth: "int (length b) + netDepth ls \<le> int (length (stack b ls))"
proof (induction ls rule: rev_induct)
  case Nil
  then show ?case by (simp add: stack_Nil netDepth_Nil)
next
  case (snoc l ls)
  show ?case
  proof (cases "stack b ls = []")
    case True
    with snoc have "int (length b) + netDepth ls \<le> 0"
      by simp
    with True show ?thesis
      using not_opens_and_closes [of l]
      by (auto simp add: stack_snoc netDepth_snoc length_bracketStep)
  next
    case False
    with snoc show ?thesis
      using not_opens_and_closes [of l]
      by (auto simp add: stack_snoc netDepth_snoc length_bracketStep)
  qed
qed

lemma stack_eq_netDepth:
  "\<forall>k\<in>{1..length ls}. 0 \<le> int (length b) + netDepth (take k ls)
   \<Longrightarrow> int (length (stack b ls)) = int (length b) + netDepth ls"
proof (induction ls rule: rev_induct)
  case Nil
  then show ?case by (simp add: stack_Nil netDepth_Nil)
next
  case (snoc l ls)
  from prefixes_snoc [OF snoc.prems]
  have pre: "\<forall>k\<in>{1..length ls}. 0 \<le> int (length b) + netDepth (take k ls)"
    and whole: "0 \<le> int (length b) + netDepth (ls @ [l])"
    by blast+
  from snoc.IH [OF pre] have ih: "int (length (stack b ls)) = int (length b) + netDepth ls" .
  show ?case
  proof (cases "stack b ls = []")
    case True
    with ih whole show ?thesis
      using not_opens_and_closes [of l]
      by (auto simp add: stack_snoc netDepth_snoc length_bracketStep)
  next
    case False
    with ih show ?thesis
      using not_opens_and_closes [of l]
      by (auto simp add: stack_snoc netDepth_snoc length_bracketStep)
  qed
qed

lemma balanced_stack:
  assumes "balancedAtEnd ls"
  shows "stack [] ls = []" and "\<forall>k\<in>{1..<length ls}. stack [] (take k ls) \<noteq> []"
proof -
  from assms have zero: "netDepth ls = 0"
    and pos: "\<forall>k\<in>{1..<length ls}. 0 < netDepth (take k ls)"
    by (simp_all add: balancedAtEnd_def)
  have nonneg: "0 \<le> netDepth (take j ls)" if "j \<in> {1..length ls}" for j
  proof (cases "j = length ls")
    case True
    with zero show ?thesis by simp
  next
    case False
    with that have "j \<in> {1..<length ls}"
      by simp
    with pos show ?thesis
      by (simp add: less_imp_le)
  qed
  have depth: "int (length (stack [] (take k ls))) = netDepth (take k ls)"
    if "k \<in> {1..length ls}" for k
  proof -
    have "\<forall>j\<in>{1..length (take k ls)}. 0 \<le> int (length ([] :: string list)) + netDepth (take j (take k ls))"
    proof
      fix j assume j: "j \<in> {1..length (take k ls)}"
      with that have "j \<in> {1..length ls}" and "min j k = j"
        by simp_all
      with nonneg [of j] show "0 \<le> int (length ([] :: string list)) + netDepth (take j (take k ls))"
        by simp
    qed
    from stack_eq_netDepth [OF this] show ?thesis
      by simp
  qed
  show "stack [] ls = []"
  proof (cases "ls = []")
    case True
    then show ?thesis by (simp add: stack_Nil)
  next
    case False
    then have "length ls \<in> {1..length ls}"
      by (simp add: Suc_leI)
    from depth [OF this] zero show ?thesis
      by simp
  qed
  show "\<forall>k\<in>{1..<length ls}. stack [] (take k ls) \<noteq> []"
  proof
    fix k assume k: "k \<in> {1..<length ls}"
    then have "k \<in> {1..length ls}"
      by simp
    from depth [OF this] have "int (length (stack [] (take k ls))) = netDepth (take k ls)" .
    moreover from pos k have "0 < netDepth (take k ls)"
      by blast
    ultimately have "0 < int (length (stack [] (take k ls)))"
      by linarith
    then show "stack [] (take k ls) \<noteq> []"
      by auto
  qed
qed

lemma feed_prefix_silent:
  assumes clean: "brackets s = []"
    and opened: "\<forall>k\<in>{1..<length ls}. stack [] (take k ls) \<noteq> []"
    and k: "k < length ls"
  shows "evaluations (trace (fold (feed c) (take k ls) s)) = evaluations (trace s)
         \<and> history (fold (feed c) (take k ls) s) = history s"
proof -
  have "\<forall>j\<in>{1..length (take k ls)}. stack (brackets s) (take j (take k ls)) \<noteq> []"
  proof
    fix j assume j: "j \<in> {1..length (take k ls)}"
    with k have "j \<in> {1..<length ls}" and "min j k = j"
      by simp_all
    with opened clean show "stack (brackets s) (take j (take k ls)) \<noteq> []"
      by simp
  qed
  from feed_pending_fold [OF this, of c] obtain tr where
    "fold (feed c) (take k ls) s
      = s\<lparr>multilineHistory := multilineHistory s @ take k ls,
          brackets := stack (brackets s) (take k ls), trace := trace s @ tr\<rparr>"
    and "evaluations tr = []"
    by blast
  then show ?thesis
    by (simp add: evaluations_append)
qed


lemma brackets_feed: "brackets (feed c l s) = bracketStep (brackets s) l"
proof (cases "bracketStep (brackets s) l = []")
  case True
  then show ?thesis by (simp add: feed_flush)
next
  case False
  then show ?thesis by (simp add: feed_pending)
qed

lemma stack_Cons: "stack b (l # ls) = stack (bracketStep b l) ls"
  by (simp add: stack_def)

lemma brackets_fold_feed: "brackets (fold (feed c) ls s) = stack (brackets s) ls"
  by (induction ls arbitrary: s) (simp_all add: stack_Nil stack_Cons brackets_feed)

lemma stack_no_closers:
  "\<forall>m\<in>set ms. \<not> closes m \<Longrightarrow> length b \<le> length (stack b ms)"
proof (induction ms arbitrary: b)
  case Nil
  then show ?case by (simp add: stack_Nil)
next
  case (Cons m ms)
  then have "length (bracketStep b m) \<le> length (stack (bracketStep b m) ms)"
    by simp
  moreover from Cons.prems have "length b \<le> length (bracketStep b m)"
    by (simp add: bracketStep_def closes_def)
  ultimately show ?case
    by (simp add: stack_Cons)
qed

lemma closer_at_depth_zero:
  assumes "brackets s = []" and "closes l"
  shows "brackets (fst (multilineHandler l s)) = []" and "brackets (feed c l s) = []"
proof -
  from assms not_opens_and_closes [of l] have plain: "\<not> endsWith l ''{''" and cl: "endsWith l ''}''"
    by (auto simp add: closes_def)
  with assms(1) show "brackets (fst (multilineHandler l s)) = []"
    by (simp add: multilineHandler_def Let_def emit_def)
  from plain cl assms(1) show "brackets (feed c l s) = []"
    by (simp add: brackets_feed bracketStep_def)
qed

lemma onLine_prefix_silent:
  assumes live: "exited s = None"
    and clean: "brackets s = []"
    and fed: "\<forall>l\<in>set ls. fedLine l"
    and opened: "\<forall>k\<in>{1..<length ls}. stack [] (take k ls) \<noteq> []"
    and k: "k < length ls"
  shows "evaluations (trace (fold (onLine c) (take k ls) s)) = evaluations (trace s)
         \<and> history (fold (onLine c) (take k ls) s) = history s"
proof -
  have fedk: "\<forall>l\<in>set (take k ls). fedLine l"
    using fed by (meson in_set_takeD)
  have "\<forall>j\<in>{1..length (take k ls)}. stack (brackets s) (take j (take k ls)) \<noteq> []"
  proof
    fix j assume j: "j \<in> {1..length (take k ls)}"
    with k have "j \<in> {1..<length ls}" and "min j k = j"
      by simp_all
    with opened clean show "stack (brackets s) (take j (take k ls)) \<noteq> []"
      by simp
  qed
  from onLine_pending_fold [OF live fedk this, of c] obtain tr where
    "fold (onLine c) (take k ls) s
      = s\<lparr>multilineHistory := multilineHistory s @ take k ls,
          brackets := stack (brackets s) (take k ls), trace := trace s @ tr\<rparr>"
    and "evaluations tr = []"
    by blast
  then show ?thesis
    by (simp add: evaluations_append)
qed

lemma onLine_fed_fields:
  assumes "exited s = None" and "fedLine l"
  shows "exited (onLine c l s) = None" and "brackets (onLine c l s) = bracketStep (brackets s) l"
proof -
  note step = onLine_fed [OF assms, of c]
  show "brackets (onLine c l s) = bracketStep (brackets s) l"
  proof (cases "\<not> finished s \<or> endsWith l ''{''")
    case True
    with step show ?thesis
      by (simp add: emit_fields brackets_feed)
  next
    case False
    with step show ?thesis
      by (simp add: emit_fields evaluate_eq finished_def bracketStep_def)
  qed
  show "exited (onLine c l s) = None"
  proof (cases "\<not> finished s \<or> endsWith l ''{''")
    case True
    show ?thesis
    proof (cases "bracketStep (brackets s) l = []")
      case flush: True
      with step True assms(1) show ?thesis
        by (simp add: emit_fields feed_flush)
    next
      case False
      with step True assms(1) show ?thesis
        by (simp add: emit_fields feed_pending)
    qed
  next
    case False
    with step assms(1) show ?thesis
      by (simp add: emit_fields evaluate_eq)
  qed
qed

lemma onLine_fed_fold_fields:
  "exited s = None \<Longrightarrow> \<forall>l\<in>set ls. fedLine l
   \<Longrightarrow> exited (fold (onLine c) ls s) = None
       \<and> brackets (fold (onLine c) ls s) = stack (brackets s) ls"
proof (induction ls arbitrary: s)
  case Nil
  then show ?case by (simp add: stack_Nil)
next
  case (Cons l ls)
  from Cons.prems have fed: "fedLine l" and rest: "\<forall>l\<in>set ls. fedLine l"
    by simp_all
  from onLine_fed_fields [OF Cons.prems(1) fed, of c]
  have "exited (onLine c l s) = None" and "brackets (onLine c l s) = bracketStep (brackets s) l"
    by simp_all
  with Cons.IH [OF _ rest, of "onLine c l s"] show ?case
    by (simp add: stack_Cons)
qed


text \<open>
  C2. Lines fed to an emptied multiline accumulator whose markers are balanced overall
  (the net depth is positive after each line but the last and zero after the last)
  give exactly one unit: nothing is evaluated or recorded before the last line, the
  last line makes the handler evaluate and record the lines joined by line feeds, and
  afterwards the pending lines and the brackets are empty. This holds of the
  multiline branch alone and, for lines as the terminal delivers them once trimmed,
  of the whole line handler of a running session.
\<close>

theorem multiline_balanced_unit:
  assumes "brackets s = []" and "multilineHistory s = []" and "balancedAtEnd ls"
  shows "emitsOneUnit (feed c) s ls
         \<and> (exited s = None \<and> (\<forall>l\<in>set ls. fedLine l) \<longrightarrow> emitsOneUnit (onLine c) s ls)"
proof
  from assms(3) have ne: "ls \<noteq> []"
    by (simp add: balancedAtEnd_def)
  note closed = balanced_stack(1) [OF assms(3)]
  note opened = balanced_stack(2) [OF assms(3)]
  from feed_unit [OF assms(1,2) ne closed opened, of c] obtain tr where
    "fold (feed c) ls s
      = s\<lparr>history := history s @ [join ''\<newline>'' ls],
          interpreter := snd (interprete c (interpreter s) (join ''\<newline>'' ls)),
          multilineHistory := [], brackets := [], trace := trace s @ tr\<rparr>"
    and "evaluations tr = [(interpreter s, join ''\<newline>'' ls)]"
    by blast
  then have "evaluations (trace (fold (feed c) ls s))
           = evaluations (trace s) @ [(interpreter s, join ''\<newline>'' ls)]"
    and "history (fold (feed c) ls s) = history s @ [join ''\<newline>'' ls]"
    and "multilineHistory (fold (feed c) ls s) = []"
    and "brackets (fold (feed c) ls s) = []"
    by (simp_all add: evaluations_append)
  moreover have "\<forall>k<length ls.
            evaluations (trace (fold (feed c) (take k ls) s)) = evaluations (trace s)
            \<and> history (fold (feed c) (take k ls) s) = history s"
    using feed_prefix_silent [OF assms(1) opened] by blast
  ultimately show "emitsOneUnit (feed c) s ls"
    unfolding emitsOneUnit_def by blast
  show "exited s = None \<and> (\<forall>l\<in>set ls. fedLine l) \<longrightarrow> emitsOneUnit (onLine c) s ls"
  proof
    assume "exited s = None \<and> (\<forall>l\<in>set ls. fedLine l)"
    then have live: "exited s = None" and fed: "\<forall>l\<in>set ls. fedLine l"
      by simp_all
    from ne fed closed opened have "unitLines ls"
      by (simp add: unitLines_def)
    from onLine_unit [OF live assms(1,2) this, of c] obtain tr where
      "fold (onLine c) ls s
        = s\<lparr>history := history s @ [join ''\<newline>'' ls],
            interpreter := snd (interprete c (interpreter s) (join ''\<newline>'' ls)),
            multilineHistory := [], brackets := [], trace := trace s @ tr @ [Prompt]\<rparr>"
      and "evaluations tr = [(interpreter s, join ''\<newline>'' ls)]"
      by blast
    then have "evaluations (trace (fold (onLine c) ls s))
             = evaluations (trace s) @ [(interpreter s, join ''\<newline>'' ls)]"
      and "history (fold (onLine c) ls s) = history s @ [join ''\<newline>'' ls]"
      and "multilineHistory (fold (onLine c) ls s) = []"
      and "brackets (fold (onLine c) ls s) = []"
      by (simp_all add: evaluations_append)
    moreover have "\<forall>k<length ls.
              evaluations (trace (fold (onLine c) (take k ls) s)) = evaluations (trace s)
              \<and> history (fold (onLine c) (take k ls) s) = history s"
      using onLine_prefix_silent [OF live assms(1) fed opened] by blast
    ultimately show "emitsOneUnit (onLine c) s ls"
      unfolding emitsOneUnit_def by blast
  qed
qed

text \<open>A block of four lines, two of them nested.\<close>

theorem multiline_balanced_unit_witness:
  "history (fold (feed exampleSessionCollaborators)
              [''object a {'', ''method m() {'', ''}'', ''}''] exampleSession)
     = [''object a {\<newline>method m() {\<newline>}\<newline>}'']
   \<and> evaluations (trace (fold (feed exampleSessionCollaborators)
              [''object a {'', ''method m() {'', ''}'', ''}''] exampleSession))
     = [([], ''object a {\<newline>method m() {\<newline>}\<newline>}'')]
   \<and> history (fold (feed exampleSessionCollaborators)
              (take 3 [''object a {'', ''method m() {'', ''}'', ''}'']) exampleSession)
     = []
   \<and> history (fold (onLine exampleSessionCollaborators)
              [''object a {'', ''method m() {'', ''}'', ''}''] exampleSession)
     = [''object a {\<newline>method m() {\<newline>}\<newline>}'']
   \<and> evaluations (trace (fold (onLine exampleSessionCollaborators)
              [''object a {'', ''method m() {'', ''}'', ''}''] exampleSession))
     = [([], ''object a {\<newline>method m() {\<newline>}\<newline>}'')]
   \<and> history (fold (onLine exampleSessionCollaborators)
              (take 3 [''object a {'', ''method m() {'', ''}'', ''}'']) exampleSession)
     = []
   \<and> multilineHistory (fold (onLine exampleSessionCollaborators)
              [''object a {'', ''method m() {'', ''}'', ''}''] exampleSession) = []
   \<and> brackets (fold (onLine exampleSessionCollaborators)
              [''object a {'', ''method m() {'', ''}'', ''}''] exampleSession) = []"
proof -
  let ?ls = "[''object a {'', ''method m() {'', ''}'', ''}'']"
  let ?c = exampleSessionCollaborators
  have clean: "brackets exampleSession = []" "multilineHistory exampleSession = []"
    by (simp_all add: exampleSession_def)
  have balanced: "balancedAtEnd ?ls"
    by code_simp
  have live: "exited exampleSession = None \<and> (\<forall>l\<in>set ?ls. fedLine l)"
    by (simp add: exampleSession_def fedLine_def trim_def isWhiteSpace_def singleLine_def)
  have before: "(3::nat) < length ?ls"
    by simp
  have start: "history exampleSession = []" "evaluations (trace exampleSession) = []"
    "interpreter exampleSession = []"
    by (simp_all add: exampleSession_def)
  from multiline_balanced_unit [OF clean balanced, of ?c] live
  have fed: "emitsOneUnit (feed ?c) exampleSession ?ls"
    and handled: "emitsOneUnit (onLine ?c) exampleSession ?ls"
    by blast+
  from fed before
  have "history (fold (feed ?c) (take 3 ?ls) exampleSession) = history exampleSession"
    unfolding emitsOneUnit_def by blast
  moreover from handled before
  have "history (fold (onLine ?c) (take 3 ?ls) exampleSession) = history exampleSession"
    unfolding emitsOneUnit_def by blast
  moreover from fed
  have "evaluations (trace (fold (feed ?c) ?ls exampleSession))
      = evaluations (trace exampleSession) @ [(interpreter exampleSession, join ''\<newline>'' ?ls)]"
    and "history (fold (feed ?c) ?ls exampleSession)
      = history exampleSession @ [join ''\<newline>'' ?ls]"
    unfolding emitsOneUnit_def by blast+
  moreover from handled
  have "evaluations (trace (fold (onLine ?c) ?ls exampleSession))
      = evaluations (trace exampleSession) @ [(interpreter exampleSession, join ''\<newline>'' ?ls)]"
    and "history (fold (onLine ?c) ?ls exampleSession)
      = history exampleSession @ [join ''\<newline>'' ?ls]"
    and "multilineHistory (fold (onLine ?c) ?ls exampleSession) = []"
    and "brackets (fold (onLine ?c) ?ls exampleSession) = []"
    unfolding emitsOneUnit_def by blast+
  ultimately show ?thesis
    by (simp only: start append_Nil) simp
qed

text \<open>
  C6. After lines in which openers outnumber closers, further lines that do not close
  a block never complete a unit: nothing more is evaluated or recorded and the
  brackets stay open, in the multiline branch alone and in the whole line handler.
  The depth is the length of an array, so it is never negative; a closer fed at depth
  zero leaves it at zero.
\<close>

theorem multiline_unbalanced_silent:
  assumes "brackets s = []" and "multilineHistory s = []"
    and "0 < netDepth ls"
    and "\<forall>m\<in>set ms. \<not> closes m"
  shows "staysSilent (feed c) s ls ms
         \<and> (exited s = None \<and> (\<forall>l\<in>set (ls @ ms). fedLine l)
              \<longrightarrow> staysSilent (onLine c) s ls ms)
         \<and> (\<forall>l. closes l \<longrightarrow>
              brackets (fst (multilineHandler l s)) = [] \<and> brackets (feed c l s) = [])"
proof (intro conjI)
  have "netDepth ls \<le> int (length (stack [] ls))"
    using stack_ge_netDepth [of "[]" ls] by simp
  with assms(3) have "0 < int (length (stack [] ls))"
    by linarith
  then have deep: "0 < length (stack [] ls)"
    by simp
  have further: "\<forall>k\<in>{1..length ms}. stack b (take k ms) \<noteq> []" if "0 < length b" for b
  proof
    fix k assume "k \<in> {1..length ms}"
    have "\<forall>m\<in>set (take k ms). \<not> closes m"
      using assms(4) by (meson in_set_takeD)
    from stack_no_closers [OF this, of b] that
    show "stack b (take k ms) \<noteq> []"
      by auto
  qed
  have whole: "stack b ms \<noteq> []" if "0 < length b" for b
    using stack_no_closers [OF assms(4), of b] that by auto
  show "staysSilent (feed c) s ls ms"
  proof -
    let ?t = "fold (feed c) ls s"
    have depth: "0 < length (brackets ?t)"
      using deep by (simp add: brackets_fold_feed assms(1))
    from feed_pending_fold [OF further [OF depth], of c] obtain tr where
      more: "fold (feed c) ms ?t
        = ?t\<lparr>multilineHistory := multilineHistory ?t @ ms,
             brackets := stack (brackets ?t) ms, trace := trace ?t @ tr\<rparr>"
      and silent: "evaluations tr = []"
      by blast
    with whole [OF depth] show ?thesis
      by (simp add: staysSilent_def evaluations_append)
  qed
  show "exited s = None \<and> (\<forall>l\<in>set (ls @ ms). fedLine l) \<longrightarrow> staysSilent (onLine c) s ls ms"
  proof
    assume "exited s = None \<and> (\<forall>l\<in>set (ls @ ms). fedLine l)"
    then have live: "exited s = None" and fedl: "\<forall>l\<in>set ls. fedLine l"
      and fedm: "\<forall>l\<in>set ms. fedLine l"
      by simp_all
    let ?t = "fold (onLine c) ls s"
    from onLine_fed_fold_fields [OF live fedl, of c]
    have live': "exited ?t = None" and br: "brackets ?t = stack (brackets s) ls"
      by simp_all
    have depth: "0 < length (brackets ?t)"
      using deep by (simp add: br assms(1))
    from onLine_pending_fold [OF live' fedm further [OF depth], of c] obtain tr where
      more: "fold (onLine c) ms ?t
        = ?t\<lparr>multilineHistory := multilineHistory ?t @ ms,
             brackets := stack (brackets ?t) ms, trace := trace ?t @ tr\<rparr>"
      and silent: "evaluations tr = []"
      by blast
    with whole [OF depth] show "staysSilent (onLine c) s ls ms"
      by (simp add: staysSilent_def evaluations_append)
  qed
  show "\<forall>l. closes l \<longrightarrow>
      brackets (fst (multilineHandler l s)) = [] \<and> brackets (feed c l s) = []"
    using closer_at_depth_zero [OF assms(1)] by blast
qed

text \<open>
  One line evaluated on its own, then a block that stays open under two more lines.
\<close>

theorem multiline_unbalanced_silent_witness:
  "evaluations (trace (fold (onLine exampleSessionCollaborators)
       ([''1 + 1'', ''object a {'', ''method m() {'', ''}''] @ [''var x = 1'', ''method n() {'']) exampleSession))
     = evaluations (trace (fold (onLine exampleSessionCollaborators)
       [''1 + 1'', ''object a {'', ''method m() {'', ''}''] exampleSession))
   \<and> history (fold (onLine exampleSessionCollaborators)
       ([''1 + 1'', ''object a {'', ''method m() {'', ''}''] @ [''var x = 1'', ''method n() {'']) exampleSession)
     = [''1 + 1'']
   \<and> brackets (fold (onLine exampleSessionCollaborators)
       ([''1 + 1'', ''object a {'', ''method m() {'', ''}''] @ [''var x = 1'', ''method n() {'']) exampleSession)
     \<noteq> []
   \<and> history (fold (feed exampleSessionCollaborators)
       ([''1 + 1'', ''object a {'', ''method m() {'', ''}''] @ [''var x = 1'', ''method n() {'']) exampleSession)
     = [''1 + 1'']
   \<and> brackets (feed exampleSessionCollaborators ''}'' exampleSession) = []"
proof -
  let ?ls = "[''1 + 1'', ''object a {'', ''method m() {'', ''}'']"
  let ?ms = "[''var x = 1'', ''method n() {'']"
  let ?c = exampleSessionCollaborators
  have clean: "brackets exampleSession = []" "multilineHistory exampleSession = []"
    by (simp_all add: exampleSession_def)
  have open_: "0 < netDepth ?ls"
    by code_simp
  have plain: "\<forall>m\<in>set ?ms. \<not> closes m"
    by code_simp
  have closer: "closes ''}''"
    by code_simp
  have live: "exited exampleSession = None \<and> (\<forall>l\<in>set (?ls @ ?ms). fedLine l)"
    by (simp add: exampleSession_def fedLine_def trim_def isWhiteSpace_def singleLine_def)
  have before: "history (fold (feed ?c) ?ls exampleSession) = [''1 + 1'']"
    by (simp add: feed_def multilineHandler_def emit_def finished_def evaluate_eq endsWith_def
        exampleSession_def Let_def)
  have before': "history (fold (onLine ?c) ?ls exampleSession) = [''1 + 1'']"
    by (simp add: onLine_def trim_def isWhiteSpace_def feed_def multilineHandler_def emit_def
        finished_def evaluate_eq endsWith_def exampleSession_def Let_def)
  note silent = multiline_unbalanced_silent [OF clean open_ plain, of ?c]
  from silent live have "staysSilent (onLine ?c) exampleSession ?ls ?ms"
    by blast
  moreover from silent have "staysSilent (feed ?c) exampleSession ?ls ?ms"
    by blast
  moreover from silent closer have "brackets (feed ?c ''}'' exampleSession) = []"
    by blast
  ultimately show ?thesis
    using before before' unfolding staysSilent_def by simp
qed

lemma onLine_text:
  assumes "exited s = None" and "trim raw \<noteq> []" and "\<not> startsWith (trim raw) '':''"
  shows "onLine c raw s
    = emit [Prompt] (if \<not> finished s \<or> endsWith (trim raw) ''{'' then feed c (trim raw) s
                     else evaluate c (trim raw) s)"
  using assms by (simp add: onLine_def Let_def)

lemma bracketStep_last_closer:
  assumes "length b = 1" and "endsWith l ''}''"
  shows "bracketStep b l = []"
proof -
  from assms(2) not_opens_and_closes [of l] have "\<not> endsWith l ''{''"
    by blast
  with assms show ?thesis
    by (cases b) (simp_all add: bracketStep_def)
qed

text \<open>
  C5. A line that completes a unit (a plain line outside multiline mode, or the
  closer of the last open bracket) makes the handler push the unit on the history,
  call \<^verbatim>\<open>interprete\<close>, print the description of the result, failure or
  success, and call \<^verbatim>\<open>onReload\<close> of the diagram client once, after the
  evaluation. The result \<open>r\<close> is arbitrary: the history does not depend on it.
\<close>

theorem unit_recorded_and_notified:
  assumes "exited s = None" and "trim raw \<noteq> []" and "\<not> startsWith (trim raw) '':''"
    and "(finished s \<and> \<not> endsWith (trim raw) ''{'')
         \<or> (length (brackets s) = 1 \<and> endsWith (trim raw) ''}'')"
    and "unit = (if finished s then trim raw
                 else join ''\<newline>'' (multilineHistory s @ [trim raw]))"
    and "interprete c (interpreter s) unit = (r, i')"
  shows "history (onLine c raw s) = history s @ [unit]
         \<and> interpreter (onLine c raw s) = i'
         \<and> trace (onLine c raw s)
           = trace s @ (if finished s then [] else [SetPrompt ''... ''])
             @ [Interprete (interpreter s) unit,
                ConsoleLog (if errored r then FailureDescription (result r) (error r)
                            else SuccessDescription (result r)),
                DiagramOnReload i']
             @ (if finished s then [] else [SetPrompt (mainPrompt s)])
             @ [Prompt]"
proof (cases "finished s")
  case True
  with assms(4) have plain: "\<not> endsWith (trim raw) ''{''"
    by (auto simp add: finished_def)
  from True assms(5) have unit: "unit = trim raw"
    by simp
  have "onLine c raw s = emit [Prompt] (evaluate c unit s)"
    using onLine_text [OF assms(1,2,3)] True plain unit by simp
  with True assms(6) show ?thesis
    by (simp add: evaluate_eq emit_def)
next
  case False
  with assms(4) have one: "length (brackets s) = 1" and closer: "endsWith (trim raw) ''}''"
    by simp_all
  from False assms(5) have unit: "join ''\<newline>'' (multilineHistory s @ [trim raw]) = unit"
    by simp
  have flush: "bracketStep (brackets s) (trim raw) = []"
    by (rule bracketStep_last_closer [OF one closer])
  have "onLine c raw s = emit [Prompt] (feed c (trim raw) s)"
    using onLine_text [OF assms(1,2,3)] False by simp
  with False assms(6) show ?thesis
    by (simp add: feed_flush [OF flush] unit emit_def)
qed

text \<open>A unit that fails, a unit that succeeds and a block of two lines.\<close>

theorem unit_recorded_and_notified_witness:
  "history (onLine exampleSessionCollaborators ''  1 / 0 '' exampleSession) = [''1 / 0'']
   \<and> trace (onLine exampleSessionCollaborators ''  1 / 0 '' exampleSession)
     = [Prompt, Interprete [] ''1 / 0'',
        ConsoleLog (FailureDescription ''1 / 0'' ''division by zero''),
        DiagramOnReload [''1 / 0''], Prompt]
   \<and> history (onLine exampleSessionCollaborators ''1 + 1'' exampleSession) = [''1 + 1'']
   \<and> trace (onLine exampleSessionCollaborators ''1 + 1'' exampleSession)
     = [Prompt, Interprete [] ''1 + 1'', ConsoleLog (SuccessDescription ''1 + 1''),
        DiagramOnReload [''1 + 1''], Prompt]
   \<and> history (onLine exampleSessionCollaborators ''}''
        (onLine exampleSessionCollaborators ''object a {'' exampleSession))
     = [''object a {\<newline>}'']
   \<and> trace (onLine exampleSessionCollaborators ''}''
        (onLine exampleSessionCollaborators ''object a {'' exampleSession))
     = [Prompt, SetPrompt ''...   '', Prompt, SetPrompt ''... '',
        Interprete [] ''object a {\<newline>}'',
        ConsoleLog (SuccessDescription ''object a {\<newline>}''),
        DiagramOnReload [''object a {\<newline>}''], SetPrompt ''wollok> '', Prompt]"
proof -
  let ?c = exampleSessionCollaborators
  let ?open = "onLine exampleSessionCollaborators ''object a {'' exampleSession"
  have opened: "?open
      = exampleSession\<lparr>multilineHistory := [''object a {''], brackets := [''{''],
          trace := [Prompt, SetPrompt ''...   '', Prompt]\<rparr>"
    by (simp add: onLine_def trim_def isWhiteSpace_def feed_def multilineHandler_def emit_def
        finished_def endsWith_def exampleSession_def Let_def)
  have live3: "exited ?open = None"
    by (simp add: opened) (simp add: exampleSession_def)
  have t3: "trim ''}'' = ''}''"
    by (simp add: trim_def isWhiteSpace_def)
  have ne3: "trim ''}'' \<noteq> []" and text3: "\<not> startsWith (trim ''}'') '':''"
    by (simp_all add: t3)
  have done3: "(finished ?open \<and> \<not> endsWith (trim ''}'') ''{'')
      \<or> (length (brackets ?open) = 1 \<and> endsWith (trim ''}'') ''}'')"
    by (simp add: opened t3 endsWith_def)
  have u3: "''object a {\<newline>}'' = (if finished ?open then trim ''}''
      else join ''\<newline>'' (multilineHistory ?open @ [trim ''}'']))"
    by (simp add: opened t3 finished_def)
  have i3: "interprete ?c (interpreter ?open) ''object a {\<newline>}''
      = (\<lparr>errored = False, result = ''object a {\<newline>}'', error = ''division by zero''\<rparr>,
         [''object a {\<newline>}''])"
    by (simp add: opened) (simp add: exampleSessionCollaborators_def exampleSession_def)
  have block: "history (onLine ?c ''}'' ?open) = [''object a {\<newline>}'']
      \<and> trace (onLine ?c ''}'' ?open)
        = [Prompt, SetPrompt ''...   '', Prompt, SetPrompt ''... '',
           Interprete [] ''object a {\<newline>}'',
           ConsoleLog (SuccessDescription ''object a {\<newline>}''),
           DiagramOnReload [''object a {\<newline>}''], SetPrompt ''wollok> '', Prompt]"
    using unit_recorded_and_notified [OF live3 ne3 text3 done3 u3 i3]
    by (simp add: opened finished_def mainPrompt_def truthyValue_def) (simp add: exampleSession_def)
  have live: "exited exampleSession = None"
    by (simp add: exampleSession_def)
  have fin: "finished exampleSession"
    by (simp add: finished_def exampleSession_def)
  have t1: "trim ''  1 / 0 '' = ''1 / 0''" and t2: "trim ''1 + 1'' = ''1 + 1''"
    by (simp_all add: trim_def isWhiteSpace_def)
  have ne1: "trim ''  1 / 0 '' \<noteq> []" and ne2: "trim ''1 + 1'' \<noteq> []"
    by (simp_all add: t1 t2)
  have text1: "\<not> startsWith (trim ''  1 / 0 '') '':''"
    and text2: "\<not> startsWith (trim ''1 + 1'') '':''"
    by (simp_all add: t1 t2)
  have done1: "(finished exampleSession \<and> \<not> endsWith (trim ''  1 / 0 '') ''{'')
      \<or> (length (brackets exampleSession) = 1 \<and> endsWith (trim ''  1 / 0 '') ''}'')"
    and done2: "(finished exampleSession \<and> \<not> endsWith (trim ''1 + 1'') ''{'')
      \<or> (length (brackets exampleSession) = 1 \<and> endsWith (trim ''1 + 1'') ''}'')"
    using fin by (simp_all add: t1 t2 endsWith_def)
  have u1: "''1 / 0'' = (if finished exampleSession then trim ''  1 / 0 ''
      else join ''\<newline>'' (multilineHistory exampleSession @ [trim ''  1 / 0 '']))"
    and u2: "''1 + 1'' = (if finished exampleSession then trim ''1 + 1''
      else join ''\<newline>'' (multilineHistory exampleSession @ [trim ''1 + 1'']))"
    using fin by (simp_all add: t1 t2)
  have i1: "interprete ?c (interpreter exampleSession) ''1 / 0''
      = (\<lparr>errored = True, result = ''1 / 0'', error = ''division by zero''\<rparr>, [''1 / 0''])"
    and i2: "interprete ?c (interpreter exampleSession) ''1 + 1''
      = (\<lparr>errored = False, result = ''1 + 1'', error = ''division by zero''\<rparr>, [''1 + 1''])"
    by (simp_all add: exampleSessionCollaborators_def exampleSession_def)
  from unit_recorded_and_notified [OF live ne1 text1 done1 u1 i1]
    unit_recorded_and_notified [OF live ne2 text2 done2 u2 i2] fin
  have "history (onLine ?c ''  1 / 0 '' exampleSession) = [''1 / 0'']
   \<and> trace (onLine ?c ''  1 / 0 '' exampleSession)
     = [Prompt, Interprete [] ''1 / 0'',
        ConsoleLog (FailureDescription ''1 / 0'' ''division by zero''),
        DiagramOnReload [''1 / 0''], Prompt]
   \<and> history (onLine ?c ''1 + 1'' exampleSession) = [''1 + 1'']
   \<and> trace (onLine ?c ''1 + 1'' exampleSession)
     = [Prompt, Interprete [] ''1 + 1'', ConsoleLog (SuccessDescription ''1 + 1''),
        DiagramOnReload [''1 + 1''], Prompt]"
    by (simp add: exampleSession_def)
  with block show ?thesis
    by blast
qed










text \<open>
  C10. The completer returns the input unchanged together with the candidates that
  start with it, or with every candidate when none does.
\<close>

theorem autocomplete_hits_or_all:
  "snd (autocomplete keywords input) = input
   \<and> fst (autocomplete keywords input)
     = (if \<exists>c\<in>set (completions keywords). prefix input c
        then filter (prefix input) (completions keywords)
        else completions keywords)"
proof -
  have same: "filter (\<lambda>c. startsWith c input) (completions keywords)
      = filter (prefix input) (completions keywords)"
    by (simp add: startsWith_prefix)
  have "(filter (prefix input) (completions keywords) \<noteq> [])
      = (\<exists>c\<in>set (completions keywords). prefix input c)"
    by (simp add: filter_empty_conv)
  with same show ?thesis
    by (simp add: autocomplete_def Let_def)
qed

text \<open>A prefix of three candidates, and an input no candidate starts with.\<close>

theorem autocomplete_hits_or_all_witness:
  "autocomplete [''var'', ''new'', ''null''] ''ne''
     = ([''new'', ''new Date()'', ''new Dictionary()''], ''ne'')
   \<and> autocomplete [''var'', ''new'', ''null''] ''x''
     = ([''var'', ''new'', ''null'', ''new Date()'', ''new Dictionary()'', ''{ n => n > 0 }'',
         ''console.println''], ''x'')"
proof -
  have all: "completions [''var'', ''new'', ''null'']
      = [''var'', ''new'', ''null'', ''new Date()'', ''new Dictionary()'', ''{ n => n > 0 }'',
         ''console.println'']"
    by (simp add: completions_def classes_def lambdas_def libs_def)
  from autocomplete_hits_or_all [of "[''var'', ''new'', ''null'']" "''ne''"]
  have "autocomplete [''var'', ''new'', ''null''] ''ne''
      = ([''new'', ''new Date()'', ''new Dictionary()''], ''ne'')"
    by (simp add: all prod_eq_iff)
  moreover from autocomplete_hits_or_all [of "[''var'', ''new'', ''null'']" "''x''"]
  have "autocomplete [''var'', ''new'', ''null''] ''x''
      = ([''var'', ''new'', ''null'', ''new Date()'', ''new Dictionary()'', ''{ n => n > 0 }'',
         ''console.println''], ''x'')"
    by (simp add: all prod_eq_iff)
  ultimately show ?thesis by blast
qed

lemma firstToken_startsWith:
  assumes "firstToken l = t"
  shows "startsWith l t"
proof -
  have "l = takeWhile (\<lambda>c. c \<noteq> CHR 0x20) l @ dropWhile (\<lambda>c. c \<noteq> CHR 0x20) l"
    by simp
  then have "prefix (firstToken l) l"
    unfolding firstToken_def by (metis prefixI)
  with assms show ?thesis
    by (simp add: startsWith_prefix)
qed

lemma onLine_quit:
  assumes "exited s = None" and "firstToken (trim raw) \<in> set ['':quit'', '':q'', '':exit'']"
  shows "exited (onLine c raw s) = Some 0"
proof -
  from assms(2) have cmd: "parseCommand (trim raw) = Quit"
    by (simp add: parseCommand_def Let_def)
  from assms(2) obtain t where t: "firstToken (trim raw) = t" "t \<in> set ['':quit'', '':q'', '':exit'']"
    by blast
  from firstToken_startsWith [OF t(1)] t(2) have "startsWith (trim raw) t" by simp
  with t(2) have colon: "startsWith (trim raw) '':''" and ne: "trim raw \<noteq> []"
    by (cases "trim raw"; auto)+
  with assms(1) cmd show ?thesis
    by (simp add: onLine_def runCommand_def Let_def)
qed

lemma fold_visitNode_keeps_failures:
  "fst (snd acc) \<noteq> [] \<Longrightarrow> fst (snd (fold (visitNode c targets) ns acc)) \<noteq> []"
proof (induction ns arbitrary: acc)
  case Nil
  then show ?case by simp
next
  case (Cons n ns)
  from Cons.prems have "fst (snd (visitNode c targets n acc)) \<noteq> []"
    by (cases acc) (auto simp add: visitNode_def)
  then show ?case
    using Cons.IH by simp
qed

lemma fold_visitNode_failure:
  assumes "t \<in> set ns" and "kind t = Test" and "t \<in> set targets" and "\<not> exec c t"
  shows "fst (snd (fold (visitNode c targets) ns acc)) \<noteq> []"
  using assms(1)
proof (induction ns arbitrary: acc)
  case Nil
  then show ?case by simp
next
  case (Cons n ns)
  show ?case
  proof (cases "n = t")
    case True
    with assms(2,3,4) have "fst (snd (visitNode c targets n acc)) \<noteq> []"
      by (cases acc) (auto simp add: visitNode_def)
    then show ?thesis
      using fold_visitNode_keeps_failures by simp
  next
    case False
    with Cons.prems have "t \<in> set ns"
      by simp
    then show ?thesis
      using Cons.IH by simp
  qed
qed

lemma runTests_failure:
  assumes "validateParameters fltr options"
    and "buildEnvironmentForProject c (project options) = Some environment"
    and "validateEnvironment c environment (skipValidations options)"
    and "interpretEnv c environment"
    and "t \<in> set (snd (getTarget (descendantsOf c) environment fltr options))"
    and "t \<in> set (forEachNode c environment)"
    and "kind t = Test"
    and "\<not> exec c t"
  shows "exitCode (runTests c fltr options) = Some 2"
proof -
  obtain errors targets where target:
    "getTarget (descendantsOf c) environment fltr options = (errors, targets)"
    by (cases "getTarget (descendantsOf c) environment fltr options")
  with assms(5) have sel: "t \<in> set targets"
    by simp
  let ?acc = "(0, [], map LoggerError errors @ [RunningTests (length targets)])"
  obtain successes failures out where ran:
    "fold (visitNode c targets) (forEachNode c environment) ?acc = (successes, failures, out)"
    by (cases "fold (visitNode c targets) (forEachNode c environment) ?acc") auto
  from fold_visitNode_failure [OF assms(6,7) sel assms(8), of ?acc] ran
  have "failures \<noteq> []"
    by simp
  with assms(1,2,3,4) target ran show ?thesis
    by (simp add: runTests_def Let_def)
qed

text \<open>
  C8. The quit command exits with 0; an auto-import path that names no package makes
  the start of the session exit with 11; a failing build of the environment makes
  the start of the session and a reload exit with 12; a test run with a failing
  selected test exits with 2. The four codes differ, and only 0 is zero.
\<close>

theorem exit_codes:
  "(exited s = None \<and> firstToken (trim raw) \<in> set ['':quit'', '':q'', '':exit'']
      \<longrightarrow> exited (onLine c raw s) = Some 0)
   \<and> (buildEnvironmentForProject c (projectPath opts) = Some e
       \<and> validateEnvironment c e (skipValidation opts)
       \<and> truthyValue path = Some f
       \<and> (case getNodeOrUndefinedByFQN c e (getFQN c (projectPath opts) f) of
             None \<Rightarrow> True
           | Some entity \<Rightarrow> kind entity \<noteq> Package)
      \<longrightarrow> replFn c path opts = Inl 11)
   \<and> (buildEnvironmentForProject c (projectPath opts) = None
      \<longrightarrow> replFn c path opts = Inl 12)
   \<and> (exited s = None \<and> buildEnvironmentForProject c (projectPath (sessionOptions s)) = None
      \<longrightarrow> exited (reloadSettled c rerun s) = Some 12)
   \<and> (validateParameters fltr options
       \<and> buildEnvironmentForProject d (project options) = Some environment
       \<and> validateEnvironment d environment (skipValidations options)
       \<and> interpretEnv d environment
       \<and> t \<in> set (snd (getTarget (descendantsOf d) environment fltr options))
       \<and> t \<in> set (forEachNode d environment)
       \<and> kind t = Test
       \<and> \<not> exec d t
      \<longrightarrow> exitCode (runTests d fltr options) = Some 2)"
proof (intro conjI impI)
  assume "exited s = None \<and> firstToken (trim raw) \<in> set ['':quit'', '':q'', '':exit'']"
  then show "exited (onLine c raw s) = Some 0"
    using onLine_quit by blast
next
  assume "buildEnvironmentForProject c (projectPath opts) = Some e
       \<and> validateEnvironment c e (skipValidation opts)
       \<and> truthyValue path = Some f
       \<and> (case getNodeOrUndefinedByFQN c e (getFQN c (projectPath opts) f) of
             None \<Rightarrow> True
           | Some entity \<Rightarrow> kind entity \<noteq> Package)"
  then have "initializeInterpreter c path opts = Inl 11"
    by (auto simp add: initializeInterpreter_def split: option.splits)
  then show "replFn c path opts = Inl 11"
    by (simp add: replFn_def)
next
  assume "buildEnvironmentForProject c (projectPath opts) = None"
  then have "initializeInterpreter c path opts = Inl 12"
    by (simp add: initializeInterpreter_def)
  then show "replFn c path opts = Inl 12"
    by (simp add: replFn_def)
next
  assume "exited s = None \<and> buildEnvironmentForProject c (projectPath (sessionOptions s)) = None"
  then show "exited (reloadSettled c rerun s) = Some 12"
    by (simp add: reloadSettled_def initializeInterpreter_def)
next
  assume "validateParameters fltr options
       \<and> buildEnvironmentForProject d (project options) = Some environment
       \<and> validateEnvironment d environment (skipValidations options)
       \<and> interpretEnv d environment
       \<and> t \<in> set (snd (getTarget (descendantsOf d) environment fltr options))
       \<and> t \<in> set (forEachNode d environment)
       \<and> kind t = Test
       \<and> \<not> exec d t"
  then show "exitCode (runTests d fltr options) = Some 2"
    using runTests_failure by blast
qed


text \<open>One session and one test run for each of the codes.\<close>

theorem exit_codes_witness:
  "exited (onLine exampleSessionCollaborators '':quit'' exampleSession) = Some 0
   \<and> replFn exampleSessionCollaborators (Some ''missing.wlk'') exampleReplOptions = Inl 11
   \<and> replFn (exampleSessionCollaborators\<lparr>buildEnvironmentForProject := (\<lambda>_. None)\<rparr>) None
       exampleReplOptions = Inl 12
   \<and> exited (reloadSettled
       (exampleSessionCollaborators\<lparr>buildEnvironmentForProject := (\<lambda>_. None)\<rparr>) True
       exampleSession) = Some 12
   \<and> exitCode (runTests (exampleCollaborators [testNode 2 ''a'' False] (\<lambda>_. False)) None noOptions)
     = Some 2"
proof -
  let ?c = exampleSessionCollaborators
  let ?broken = "exampleSessionCollaborators\<lparr>buildEnvironmentForProject := (\<lambda>_. None)\<rparr>"
  let ?d = "exampleCollaborators [testNode 2 ''a'' False] (\<lambda>_. False)"
  note valid = exit_codes [where s = exampleSession and raw = "'':quit''" and c = ?c
      and opts = exampleReplOptions and e = exampleEnvironment and path = "Some ''missing.wlk''"
      and f = "''missing.wlk''" and rerun = True and fltr = None and options = noOptions
      and d = ?d and environment = exampleEnvironment and t = "testNode 2 ''a'' False"]
  note broken = exit_codes [where s = exampleSession and raw = "'':quit''" and c = ?broken
      and opts = exampleReplOptions and e = exampleEnvironment and path = None
      and f = "''missing.wlk''" and rerun = True and fltr = None and options = noOptions
      and d = ?d and environment = exampleEnvironment and t = "testNode 2 ''a'' False"]
  have quit: "exited exampleSession = None
      \<and> firstToken (trim '':quit'') \<in> set ['':quit'', '':q'', '':exit'']"
    by (simp add: exampleSession_def trim_def isWhiteSpace_def firstToken_def)
  have missing: "buildEnvironmentForProject ?c (projectPath exampleReplOptions) = Some exampleEnvironment
       \<and> validateEnvironment ?c exampleEnvironment (skipValidation exampleReplOptions)
       \<and> truthyValue (Some ''missing.wlk'') = Some ''missing.wlk''
       \<and> (case getNodeOrUndefinedByFQN ?c exampleEnvironment
                 (getFQN ?c (projectPath exampleReplOptions) ''missing.wlk'') of
             None \<Rightarrow> True
           | Some entity \<Rightarrow> kind entity \<noteq> Package)"
    by (simp add: exampleSessionCollaborators_def truthyValue_def exampleDescendants_def
        exampleEnvironment_def examplePackage_def)
  have nobuild: "buildEnvironmentForProject ?broken (projectPath exampleReplOptions) = None"
    by simp
  have reload: "exited exampleSession = None
      \<and> buildEnvironmentForProject ?broken (projectPath (sessionOptions exampleSession)) = None"
    by (simp add: exampleSession_def)
  have failing: "validateParameters None noOptions
       \<and> buildEnvironmentForProject ?d (project noOptions) = Some exampleEnvironment
       \<and> validateEnvironment ?d exampleEnvironment (skipValidations noOptions)
       \<and> interpretEnv ?d exampleEnvironment
       \<and> testNode 2 ''a'' False
           \<in> set (snd (getTarget (descendantsOf ?d) exampleEnvironment None noOptions))
       \<and> testNode 2 ''a'' False \<in> set (forEachNode ?d exampleEnvironment)
       \<and> kind (testNode 2 ''a'' False) = Test
       \<and> \<not> exec ?d (testNode 2 ''a'' False)"
    by (simp add: validateParameters_def truthy_def truthyValue_def exampleCollaborators_def
        getTarget_def possibleTargets_def getBaseNode_def getTestFilter_def testMatches_def
        sanitize_def noOptions_def exampleDescendants_def exampleEnvironment_def
        examplePackage_def testNode_def)
  from valid quit have "exited (onLine ?c '':quit'' exampleSession) = Some 0"
    by blast
  moreover from valid missing
  have "replFn ?c (Some ''missing.wlk'') exampleReplOptions = Inl 11"
    by blast
  moreover from broken nobuild have "replFn ?broken None exampleReplOptions = Inl 12"
    by blast
  moreover from broken reload have "exited (reloadSettled ?broken True exampleSession) = Some 12"
    by blast
  moreover from valid failing have "exitCode (runTests ?d None noOptions) = Some 2"
    by blast
  ultimately show ?thesis by blast
qed

end
